theory Spec2Isabelle
  imports Complex_Main "HOL-Library.Sublist"
begin

text \<open>
  A shallow embedding of the semantic match and rerank pipeline of the career coach: the
  vector index of \<open>app/startup/load_embeddings.py\<close> (shard loader, search) and the match
  service of \<open>app/services/match_service.py\<close> (candidate fetcher, staged selector,
  seniority classifier, \<open>match_vacancies\<close>). Exceptions are results of type
  \<open>py_error + 'a\<close>; the floating-point arithmetic of the query path is IEEE 754 in
  \<open>float32\<close> and \<open>float64\<close>; the assisting model, the embedding service, the document
  store and the graph search of the faiss library are arguments of the functions that call
  them. The definitions come first, the properties after them.
\<close>

section \<open>Python values used by the match pipeline\<close>

text \<open>
  A Python \<open>str\<close> is a sequence of Unicode code points; the keyword tables of the
  classifier are Cyrillic, so a string is a list of code points here. \<open>ascii\<close> turns an
  ASCII literal into that representation.
\<close>

type_synonym pystr = "nat list"

definition ascii :: "string \<Rightarrow> pystr" where
  "ascii s = map of_char s"

text \<open>
  The exceptions the modelled code raises or catches. \<open>RuntimeError\<close> is kept apart
  because every handler of the source tests for it first; \<open>OtherException\<close> stands for
  any other subclass of \<open>Exception\<close> (\<open>JSONDecodeError\<close>, \<open>AttributeError\<close>,
  \<open>TypeError\<close>, ...), which the handlers treat alike.
\<close>

datatype py_error =
    RuntimeError pystr
  | ValueError pystr
  | KeyError pystr
  | FileNotFoundError pystr
  | OtherException

text \<open>
  \<open>str(e)\<close>: the message of the exception; for a \<open>KeyError\<close> the key in quotes. The
  message of an exception of the remaining classes is not modelled.
\<close>

fun py_str :: "py_error \<Rightarrow> pystr" where
  "py_str (RuntimeError msg) = msg"
| "py_str (ValueError msg) = msg"
| "py_str (KeyError key) = [39] @ key @ [39]"
| "py_str (FileNotFoundError msg) = msg"
| "py_str OtherException = []"

text \<open>
  The slice \<open>xs[:n]\<close>: the first \<open>n\<close> elements for \<open>n \<ge> 0\<close>, and all but the last
  \<open>-n\<close> elements for a negative \<open>n\<close>.
\<close>

definition py_prefix :: "int \<Rightarrow> 'a list \<Rightarrow> 'a list" where
  "py_prefix n xs =
     (if 0 \<le> n then take (nat n) xs else take (length xs - nat (- n)) xs)"

section \<open>Candidate records and the candidate fetcher\<close>

text \<open>
  A text attribute of a document: the key is missing, the key holds \<open>None\<close>, or the key
  holds a text. The seeding code stores every text attribute as a text or as \<open>None\<close>.
\<close>

datatype attr = Missing | Null | Text pystr

text \<open>\<open>d.get(key, "")\<close> and \<open>d.get(key, "") or ""\<close>.\<close>

fun get_or_empty :: "attr \<Rightarrow> pystr option" where
  "get_or_empty Missing = Some []"
| "get_or_empty Null = None"
| "get_or_empty (Text s) = Some s"

fun text_or_empty :: "attr \<Rightarrow> pystr" where
  "text_or_empty Missing = []"
| "text_or_empty Null = []"
| "text_or_empty (Text s) = s"

text \<open>
  A document of the \<open>vacancies\<close> collection. The seeding code stores \<open>idx\<close> as an
  unsigned integer; \<open>idx\<close> is \<open>None\<close> here when the document has no such key.
\<close>

record vacancy =
  idx :: "int option"
  title :: attr
  description :: attr
  key_skills :: attr
  company :: attr
  location :: attr
  salary :: attr
  experience :: attr
  job_type :: attr
  hh_url :: attr

text \<open>
  \<open>VacanciesRepository.find_by_ids\<close>: the documents of the collection whose \<open>idx\<close> is one
  of the requested ids, in the collection's order (the query \<open>{"idx": {"$in": idx_list}}\<close>).
\<close>

definition find_by_ids :: "vacancy list \<Rightarrow> int list \<Rightarrow> vacancy list" where
  "find_by_ids coll idx_list =
     filter (\<lambda>d. case idx d of Some i \<Rightarrow> i \<in> set idx_list | None \<Rightarrow> False) coll"

text \<open>
  The dict comprehension \<open>{int(d["idx"]): d for d in docs if "idx" in d}\<close>: documents are
  entered from left to right, a later document replacing an earlier one with the same key.
\<close>

definition by_idx_of :: "vacancy list \<Rightarrow> (int \<rightharpoonup> vacancy)" where
  "by_idx_of docs =
     fold (\<lambda>d m. case idx d of Some i \<Rightarrow> m(i \<mapsto> d) | None \<Rightarrow> m) docs Map.empty"

text \<open>
  \<open>MatchService.fetch_vacancies_in_order\<close>. \<open>ordered\<close> holds \<open>by_idx.get(i)\<close> for the
  ids that are keys of \<open>by_idx\<close>; the last line drops the \<open>None\<close> entries.
\<close>

definition fetch_vacancies_in_order :: "vacancy list \<Rightarrow> int list \<Rightarrow> vacancy list" where
  "fetch_vacancies_in_order coll top_idx =
     (let docs = find_by_ids coll top_idx;
          by_idx = by_idx_of docs;
          ordered = map by_idx (filter (\<lambda>i. by_idx i \<noteq> None) top_idx)
      in List.map_filter (\<lambda>d. d) ordered)"

text \<open>The ids that have a record in the collection.\<close>

definition stored_ids :: "vacancy list \<Rightarrow> int set" where
  "stored_ids coll = {i. \<exists>d \<in> set coll. idx d = Some i}"

text \<open>
  A record for concrete runs, as the seeding code writes one for a vacancy without any
  text: its id, \<open>None\<close> for every text attribute, and no link.
\<close>

definition vac :: "int \<Rightarrow> vacancy" where
  "vac i = \<lparr>idx = Some i, title = Null, description = Null, key_skills = Null,
            company = Null, location = Null, salary = Null, experience = Null,
            job_type = Null, hh_url = Missing\<rparr>"

section \<open>The staged selector\<close>

text \<open>
  The value \<open>json.loads\<close> builds: Python's \<open>bool\<close>, \<open>int\<close>, \<open>float\<close>, \<open>str\<close>,
  \<open>list\<close> and \<open>dict\<close> (an object keeps its members in document order; on a repeated
  key the last member wins).
\<close>

datatype json =
    JNull
  | JBool bool
  | JInt int
  | JFloat real
  | JStr pystr
  | JArr "json list"
  | JObj "(pystr \<times> json) list"

text \<open>
  What the \<open>try\<close> block of \<open>stage1_select\<close> meets before it parses anything. The system
  prompt and the context text reach only the assisting model, so the outcome of that call
  is an argument of the model of \<open>stage1_select\<close>, and a theorem about every outcome is a
  theorem about every prompt, every context and every answer:
  \<^item> \<open>PromptFormatError\<close>: \<open>system_prompt.format(limit=limit)\<close> raised (a prompt with
    another replacement field);
  \<^item> \<open>ApiError msg\<close>: \<open>run_structured_completion\<close> raised, which it does only with
    \<open>RuntimeError\<close>;
  \<^item> \<open>Raw text\<close>: the text it returned (\<open>""\<close> when the model gave none).
\<close>

datatype completion = PromptFormatError | ApiError pystr | Raw pystr

text \<open>\<open>isinstance(x, int)\<close> holds of an \<open>int\<close> and of a \<open>bool\<close>; \<open>int(True)\<close> is 1.\<close>

fun int_of_json :: "json \<Rightarrow> int option" where
  "int_of_json (JInt n) = Some n"
| "int_of_json (JBool b) = Some (if b then 1 else 0)"
| "int_of_json _ = None"

text \<open>
  \<open>[int(x) for x in data.get("selected", []) if isinstance(x, int)]\<close>. \<open>data.get\<close> exists
  only on a dict (\<open>AttributeError\<close> otherwise); iterating a string or a dict yields
  strings, none of which is an \<open>int\<close>; \<open>None\<close>, a number and a boolean are not iterable
  (\<open>TypeError\<close>).
\<close>

definition selected_of :: "json \<Rightarrow> py_error + int list" where
  "selected_of data =
     (case data of
        JObj members \<Rightarrow>
          (case map_of (rev members) (ascii ''selected'') of
             None \<Rightarrow> Inr []
           | Some (JArr xs) \<Rightarrow> Inr (List.map_filter int_of_json xs)
           | Some (JStr s) \<Rightarrow> Inr []
           | Some (JObj ms) \<Rightarrow> Inr []
           | Some _ \<Rightarrow> Inl OtherException)
      | _ \<Rightarrow> Inl OtherException)"

text \<open>
  \<open>MatchService.stage1_select\<close>. \<open>loads\<close> is \<open>json.loads\<close>. The body of the \<open>try\<close>
  block gives an exception, the early \<open>return []\<close> on an empty text (\<open>Inr None\<close>) or the
  list \<open>selected\<close>; the handlers re-raise a \<open>RuntimeError\<close> and turn any other exception
  into \<open>[]\<close>; the last line is \<open>selected[:limit]\<close>.
\<close>

definition stage1_select ::
  "(pystr \<Rightarrow> py_error + json) \<Rightarrow> completion \<Rightarrow> int \<Rightarrow> py_error + int list" where
  "stage1_select loads reply limit =
     (let body =
        (case reply of
           PromptFormatError \<Rightarrow> Inl OtherException
         | ApiError msg \<Rightarrow> Inl (RuntimeError msg)
         | Raw raw \<Rightarrow>
             if raw = [] then Inr None
             else (case loads raw of
                     Inl e \<Rightarrow> Inl e
                   | Inr data \<Rightarrow>
                       (case selected_of data of
                          Inl e \<Rightarrow> Inl e
                        | Inr selected \<Rightarrow> Inr (Some selected))))
      in case body of
           Inl (RuntimeError msg) \<Rightarrow> Inl (RuntimeError (ascii ''YandexGPT API error: '' @ msg))
         | Inl _ \<Rightarrow> Inr []
         | Inr None \<Rightarrow> Inr []
         | Inr (Some selected) \<Rightarrow> Inr (py_prefix limit selected))"

text \<open>\<open>MatchService.stage2_select\<close> delegates to \<open>stage1_select\<close>.\<close>

definition stage2_select ::
  "(pystr \<Rightarrow> py_error + json) \<Rightarrow> completion \<Rightarrow> int \<Rightarrow> py_error + int list" where
  "stage2_select loads reply limit = stage1_select loads reply limit"

text \<open>
  The narrowing step of \<open>match_vacancies\<close>, written twice there (for \<open>stage2\<close> and for
  \<open>final\<close>):
  \<^verbatim>\<open>[d for d in cands if int(d["idx"]) in selected][:k] or cands[:k]\<close>
  where \<open>selected\<close> is the set of the ids the selector returned. \<open>d["idx"]\<close> raises
  \<open>KeyError\<close> on a record without that key.
\<close>

definition narrow_to :: "int list \<Rightarrow> int \<Rightarrow> vacancy list \<Rightarrow> py_error + vacancy list" where
  "narrow_to selected k cands =
     (if list_ex (\<lambda>d. idx d = None) cands then Inl (KeyError (ascii ''idx''))
      else
        (let chosen =
           py_prefix k
             (filter (\<lambda>d. case idx d of Some i \<Rightarrow> i \<in> set selected | None \<Rightarrow> False) cands)
         in Inr (if chosen = [] then py_prefix k cands else chosen)))"

text \<open>
  A stand-in for \<open>json.loads\<close> in concrete runs: it knows the two texts below and rejects
  every other text.
\<close>

definition loads_sample :: "pystr \<Rightarrow> py_error + json" where
  \<open>loads_sample raw =
     (if raw = ascii ''{"selected":[10,99]}''
        then Inr (JObj [(ascii ''selected'', JArr [JInt 10, JInt 99])])
      else if raw = ascii ''{"selected":[1,2,3]}''
        then Inr (JObj [(ascii ''selected'', JArr [JInt 1, JInt 2, JInt 3])])
      else Inl OtherException)\<close>

text \<open>The candidates whose id the selector returned, in the order of the candidates.\<close>

definition hits :: "int list \<Rightarrow> vacancy list \<Rightarrow> vacancy list" where
  "hits selected cands =
     filter (\<lambda>d. case idx d of Some i \<Rightarrow> i \<in> set selected | None \<Rightarrow> False) cands"

section \<open>The vector index\<close>

text \<open>
  The module-level state of \<open>load_embeddings\<close>: whether the \<open>faiss\<close> import succeeded,
  the index (\<open>None\<close> until it is built) and the ids of its rows.
\<close>

record 'g index_state =
  FAISS_AVAILABLE :: bool
  faiss_index :: "'g option"
  vacancy_ids :: "int list"

text \<open>
  The floating-point numbers of numpy: \<open>Fin s m e\<close> is the finite number
  \<open>(-1)^s * m * 2^e\<close> (\<open>Fin True 0 e\<close> is \<open>-0.0\<close>), \<open>Infinity s\<close> is the infinity of
  sign \<open>s\<close>. The two formats the query path meets are IEEE 754 binary32 (\<open>float32\<close>) and
  binary64 (\<open>float64\<close>): \<open>prec\<close> is the number of bits of the significand, \<open>emin\<close> the
  exponent of the last bit of a subnormal number and \<open>emax\<close> that of the last bit of the
  largest number.
\<close>

datatype fp = Fin bool nat int | Infinity bool | NaN

datatype fdtype = F32 | F64

fun prec :: "fdtype \<Rightarrow> nat" where
  "prec F32 = 24"
| "prec F64 = 53"

fun emin :: "fdtype \<Rightarrow> int" where
  "emin F32 = - 149"
| "emin F64 = - 1074"

fun emax :: "fdtype \<Rightarrow> int" where
  "emax F32 = 104"
| "emax F64 = 971"

text \<open>The number of bits of a natural number.\<close>

fun bit_length :: "nat \<Rightarrow> nat" where
  "bit_length n = (if n = 0 then 0 else Suc (bit_length (n div 2)))"

declare bit_length.simps [simp del]

text \<open>
  \<open>m / 2^k\<close> rounded to the nearest integer, a tie going to the even one (the rounding
  mode of numpy).
\<close>

definition shift_round :: "nat \<Rightarrow> nat \<Rightarrow> nat" where
  "shift_round m k =
     (if k = 0 then m
      else if 2 ^ (k - 1) < m mod 2 ^ k \<or> (m mod 2 ^ k = 2 ^ (k - 1) \<and> odd (m div 2 ^ k))
      then m div 2 ^ k + 1
      else m div 2 ^ k)"

text \<open>
  The exact number \<open>(-1)^s * m * 2^e\<close> rounded into a format. \<open>quantum\<close> is the exponent
  of the last bit kept: it is fixed by the size of the number and is never below \<open>emin\<close>,
  so that a number too small for the format loses its low bits (underflow, down to zero).
  \<open>pack\<close> puts the rounded significand into the normal form of the format; a number too
  large becomes an infinity.
\<close>

definition quantum :: "fdtype \<Rightarrow> nat \<Rightarrow> int \<Rightarrow> int" where
  "quantum t m e = max (emin t) (e + int (bit_length m) - int (prec t))"

definition pack :: "fdtype \<Rightarrow> bool \<Rightarrow> nat \<Rightarrow> int \<Rightarrow> fp" where
  "pack t s m q =
     (if m = 0 then Fin s 0 (emin t)
      else if m = 2 ^ prec t
      then (if emax t < q + 1 then Infinity s else Fin s (2 ^ (prec t - 1)) (q + 1))
      else if emax t < q then Infinity s
      else Fin s m q)"

definition fp_round :: "fdtype \<Rightarrow> bool \<Rightarrow> nat \<Rightarrow> int \<Rightarrow> fp" where
  "fp_round t s m e =
     pack t s
       (if quantum t m e \<le> e then m * 2 ^ nat (e - quantum t m e)
        else shift_round m (nat (quantum t m e - e)))
       (quantum t m e)"

text \<open>
  An exact integer multiple \<open>a * 2^e\<close> rounded into a format; \<open>z\<close> is the sign of the
  result when it is an exact zero.
\<close>

definition fp_round_int :: "fdtype \<Rightarrow> bool \<Rightarrow> int \<Rightarrow> int \<Rightarrow> fp" where
  "fp_round_int t z a e =
     (if a = 0 then Fin z 0 (emin t) else fp_round t (a < 0) (nat \<bar>a\<bar>) e)"

text \<open>Product and sum in a format: the exact result, rounded.\<close>

fun fp_mul :: "fdtype \<Rightarrow> fp \<Rightarrow> fp \<Rightarrow> fp" where
  "fp_mul t NaN y = NaN"
| "fp_mul t x NaN = NaN"
| "fp_mul t (Infinity s1) (Infinity s2) = Infinity (s1 \<noteq> s2)"
| "fp_mul t (Infinity s1) (Fin s2 m e) = (if m = 0 then NaN else Infinity (s1 \<noteq> s2))"
| "fp_mul t (Fin s1 m e) (Infinity s2) = (if m = 0 then NaN else Infinity (s1 \<noteq> s2))"
| "fp_mul t (Fin s1 m1 e1) (Fin s2 m2 e2) = fp_round t (s1 \<noteq> s2) (m1 * m2) (e1 + e2)"

fun fp_add :: "fdtype \<Rightarrow> fp \<Rightarrow> fp \<Rightarrow> fp" where
  "fp_add t NaN y = NaN"
| "fp_add t x NaN = NaN"
| "fp_add t (Infinity s1) (Infinity s2) = (if s1 = s2 then Infinity s1 else NaN)"
| "fp_add t (Infinity s1) (Fin s2 m e) = Infinity s1"
| "fp_add t (Fin s1 m e) (Infinity s2) = Infinity s2"
| "fp_add t (Fin s1 m1 e1) (Fin s2 m2 e2) =
     fp_round_int t (s1 \<and> s2)
       ((if s1 then - int (m1 * 2 ^ nat (e1 - min e1 e2)) else int (m1 * 2 ^ nat (e1 - min e1 e2)))
        + (if s2 then - int (m2 * 2 ^ nat (e2 - min e1 e2)) else int (m2 * 2 ^ nat (e2 - min e1 e2))))
       (min e1 e2)"

text \<open>The integer square root, rounded down.\<close>

definition isqrt_step :: "nat \<Rightarrow> nat \<Rightarrow> nat" where
  "isqrt_step r n = (if (r + 1) * (r + 1) \<le> n then r + 1 else r)"

fun isqrt :: "nat \<Rightarrow> nat" where
  "isqrt n = (if n < 2 then n else isqrt_step (2 * isqrt (n div 4)) n)"

declare isqrt.simps [simp del]

text \<open>
  Square root and quotient in a format. The exact result is computed to more bits than the
  format keeps, with a last bit that says whether anything is left (\<open>sqrt_sticky\<close>,
  \<open>div_sticky\<close>), and then rounded. \<open>sqrt_shift\<close> is the number of bits added to the
  significand before the integer square root is taken; it makes the exponent even.
\<close>

definition sqrt_sticky :: "nat \<Rightarrow> nat" where
  "sqrt_sticky n = 2 * isqrt n + (if isqrt n * isqrt n = n then 0 else 1)"

definition div_sticky :: "nat \<Rightarrow> nat \<Rightarrow> nat" where
  "div_sticky a b = 2 * (a div b) + (if a mod b = 0 then 0 else 1)"

definition sqrt_shift :: "fdtype \<Rightarrow> int \<Rightarrow> nat" where
  "sqrt_shift t e = 2 * prec t + 2 + (if even (e - int (2 * prec t + 2)) then 0 else 1)"

fun fp_sqrt :: "fdtype \<Rightarrow> fp \<Rightarrow> fp" where
  "fp_sqrt t NaN = NaN"
| "fp_sqrt t (Infinity s) = (if s then NaN else Infinity False)"
| "fp_sqrt t (Fin s m e) =
     (if m = 0 then Fin s 0 (emin t)
      else if s then NaN
      else fp_round t False (sqrt_sticky (m * 2 ^ sqrt_shift t e))
             ((e - int (sqrt_shift t e)) div 2 - 1))"

fun fp_div :: "fdtype \<Rightarrow> fp \<Rightarrow> fp \<Rightarrow> fp" where
  "fp_div t NaN y = NaN"
| "fp_div t x NaN = NaN"
| "fp_div t (Infinity s1) (Infinity s2) = NaN"
| "fp_div t (Infinity s1) (Fin s2 m e) = Infinity (s1 \<noteq> s2)"
| "fp_div t (Fin s1 m e) (Infinity s2) = Fin (s1 \<noteq> s2) 0 (emin t)"
| "fp_div t (Fin s1 m1 e1) (Fin s2 m2 e2) =
     (if m2 = 0 then (if m1 = 0 then NaN else Infinity (s1 \<noteq> s2))
      else if m1 = 0 then Fin (s1 \<noteq> s2) 0 (emin t)
      else fp_round t (s1 \<noteq> s2)
             (div_sticky (m1 * 2 ^ (prec t + 2 + bit_length m2)) m2)
             (e1 - e2 - int (prec t + 2 + bit_length m2) - 1))"

text \<open>\<open>astype\<close>: the number rounded into another format.\<close>

fun fp_cast :: "fdtype \<Rightarrow> fp \<Rightarrow> fp" where
  "fp_cast t NaN = NaN"
| "fp_cast t (Infinity s) = Infinity s"
| "fp_cast t (Fin s m e) = fp_round t s m e"

text \<open>\<open>x == 0\<close>: true of \<open>0.0\<close> and of \<open>-0.0\<close>.\<close>

fun fp_is_zero :: "fp \<Rightarrow> bool" where
  "fp_is_zero (Fin s m e) = (m = 0)"
| "fp_is_zero _ = False"

text \<open>
  A query vector: a numpy array of \<open>float32\<close> (what \<open>embed_text\<close> returns) or of
  \<open>float64\<close>, given by its element type and its elements in the order of \<open>ravel\<close>. Both
  \<open>np.linalg.norm\<close> and \<open>reshape(1, -1)\<close> look at the elements in that order only.
\<close>

record float_array =
  dtype :: fdtype
  elems :: "fp list"

text \<open>
  \<open>np.linalg.norm(query_vec)\<close>, which is \<open>sqrt(x.dot(x))\<close> in the element type of the
  array. The products are summed from left to right here; the library may group the sum
  in another way.
\<close>

definition self_dot :: "fdtype \<Rightarrow> fp list \<Rightarrow> fp" where
  "self_dot t xs = foldl (\<lambda>acc x. fp_add t acc (fp_mul t x x)) (Fin False 0 (emin t)) xs"

definition linalg_norm :: "float_array \<Rightarrow> fp" where
  "linalg_norm v = fp_sqrt (dtype v) (self_dot (dtype v) (elems v))"

text \<open>\<open>(query_vec / query_norm).astype('float32').reshape(1, -1)\<close>.\<close>

definition unit_query :: "float_array \<Rightarrow> fp \<Rightarrow> fp list" where
  "unit_query v query_norm = map (\<lambda>x. fp_cast F32 (fp_div (dtype v) x query_norm)) (elems v)"

text \<open>\<open>c * v\<close> for a scalar \<open>c\<close>, in the element type of the array.\<close>

definition scaled :: "fp \<Rightarrow> float_array \<Rightarrow> float_array" where
  "scaled c v = v\<lparr>elems := map (fp_mul (dtype v) c) (elems v)\<rparr>"

text \<open>
  The call of the faiss library \<open>search_top_k\<close> makes. \<open>hnsw_search g q k\<close> is the row
  \<open>indices[0]\<close> of \<open>g.search(q, k)\<close> for the index \<open>g\<close>: a list of row positions in which
  the library writes \<open>-1\<close> for a neighbour it did not find, or the exception the library
  raises (on a query of another dimension than the index, on \<open>k \<le> 0\<close>). The graph search
  itself is not modelled: it is an arbitrary function of the index, the normalised query
  and \<open>k\<close>.
\<close>

record 'g faiss_lib =
  hnsw_search :: "'g \<Rightarrow> fp list \<Rightarrow> int \<Rightarrow> py_error + int list"

text \<open>\<open>search_top_k\<close>, check by check in the order of the source.\<close>

definition search_top_k ::
  "'g faiss_lib \<Rightarrow> 'g index_state \<Rightarrow> float_array \<Rightarrow> int \<Rightarrow> py_error + int list" where
  "search_top_k ops st query_vec k =
     (if \<not> FAISS_AVAILABLE st then Inl (RuntimeError (ascii ''FAISS not installed''))
      else
        (case faiss_index st of
           None \<Rightarrow> Inl (RuntimeError (ascii ''FAISS index not built. Check embeddings are loaded.''))
         | Some index \<Rightarrow>
             if length (vacancy_ids st) = 0 then Inl (RuntimeError (ascii ''No vacancies in index''))
             else
               (let query_norm = linalg_norm query_vec
                in if fp_is_zero query_norm
                   then Inl (ValueError (ascii ''Query vector cannot be zero''))
                   else
                     (let query_normalized = unit_query query_vec query_norm
                      in case hnsw_search ops index query_normalized
                                (min k (int (length (vacancy_ids st)))) of
                           Inl e \<Rightarrow> Inl e
                         | Inr indices \<Rightarrow>
                             Inr (map (\<lambda>p. vacancy_ids st ! nat p)
                                    (filter (\<lambda>p. 0 \<le> p \<and> p < int (length (vacancy_ids st)))
                                       indices))))))"

text \<open>The index is built: the library is there, the index is set and has rows.\<close>

definition index_built :: "'g index_state \<Rightarrow> bool" where
  "index_built st = (FAISS_AVAILABLE st \<and> faiss_index st \<noteq> None \<and> vacancy_ids st \<noteq> [])"

text \<open>
  What \<open>search_top_k\<close> does after its checks, for the index \<open>index\<close>: the graph search
  with the normalised query, and the row positions turned into ids.
\<close>

definition graph_result ::
  "'g faiss_lib \<Rightarrow> 'g \<Rightarrow> int list \<Rightarrow> float_array \<Rightarrow> int \<Rightarrow> py_error + int list" where
  "graph_result ops index ids query_vec k =
     (case hnsw_search ops index (unit_query query_vec (linalg_norm query_vec))
             (min k (int (length ids))) of
        Inl e \<Rightarrow> Inl e
      | Inr indices \<Rightarrow>
          Inr (map (\<lambda>p. ids ! nat p) (filter (\<lambda>p. 0 \<le> p \<and> p < int (length ids)) indices)))"

text \<open>
  A library for concrete runs: an index of dimension 2 that raises on a query of another
  dimension and on \<open>k \<le> 0\<close>, and answers every other query with the first \<open>k\<close> of the row
  positions \<open>0, 1, -1, 7\<close>.
\<close>

definition ops_sample :: "unit faiss_lib" where
  "ops_sample =
     \<lparr>hnsw_search = (\<lambda>g q k. if k \<le> 0 \<or> length q \<noteq> 2 then Inl OtherException
                              else Inr (take (nat k) [0, 1, - 1, 7]))\<rparr>"

definition built_sample :: "unit index_state" where
  "built_sample = \<lparr>FAISS_AVAILABLE = True, faiss_index = Some (), vacancy_ids = [5, 7, 9]\<rparr>"

definition unbuilt_sample :: "unit index_state" where
  "unbuilt_sample = \<lparr>FAISS_AVAILABLE = True, faiss_index = None, vacancy_ids = []\<rparr>"

text \<open>
  Query vectors of \<open>float32\<close> for concrete runs: \<open>[0, 0]\<close>, \<open>[1, 0]\<close>, \<open>[3, 4]\<close>, and the
  scalars \<open>2\<close> and \<open>2^-100\<close>.
\<close>

definition q_zero :: float_array where
  "q_zero = \<lparr>dtype = F32, elems = [Fin False 0 0, Fin False 0 0]\<rparr>"

definition q_unit :: float_array where
  "q_unit = \<lparr>dtype = F32, elems = [Fin False 1 0, Fin False 0 0]\<rparr>"

definition q_3_4 :: float_array where
  "q_3_4 = \<lparr>dtype = F32, elems = [Fin False 3 0, Fin False 4 0]\<rparr>"


definition c_tiny :: fp where
  "c_tiny = Fin False 1 (- 100)"

section \<open>The attribute classifier\<close>

text \<open>
  The six labels; \<open>label_text\<close> is the string the source returns for each: Stazher,
  Nachalnyj, Srednij, Prodvinutyj, Ekspert, Rukovoditel (written in Cyrillic there).
\<close>

datatype seniority = Intern | Entry | Mid | Advanced | Expert | Head

fun label_text :: "seniority \<Rightarrow> pystr" where
  "label_text Intern = [1057, 1090, 1072, 1078, 1077, 1088]"
| "label_text Entry = [1053, 1072, 1095, 1072, 1083, 1100, 1085, 1099, 1081]"
| "label_text Mid = [1057, 1088, 1077, 1076, 1085, 1080, 1081]"
| "label_text Advanced = [1055, 1088, 1086, 1076, 1074, 1080, 1085, 1091, 1090, 1099, 1081]"
| "label_text Expert = [1069, 1082, 1089, 1087, 1077, 1088, 1090]"
| "label_text Head = [1056, 1091, 1082, 1086, 1074, 1086, 1076, 1080, 1090, 1077, 1083, 1100]"

text \<open>
  The keyword lists of \<open>determine_seniority_level\<close>, in the order of the source. The
  Cyrillic keywords are, in Latin letters: stazher, bez opyta, obuchenie; rukovoditel,
  direktor; ekspert; starshij, vedushchij, opyt ot 3, opyt ot 5; srednij, opyt ot 1,
  opyt ot 2; mladshij, nachalnyj.
\<close>

definition intern_words :: "pystr list" where
  "intern_words =
     [[1089, 1090, 1072, 1078, 1077, 1088], ascii ''intern'', ascii ''trainee'',
      [1073, 1077, 1079, 32, 1086, 1087, 1099, 1090, 1072],
      [1086, 1073, 1091, 1095, 1077, 1085, 1080, 1077]]"

definition head_words :: "pystr list" where
  "head_words =
     [[1088, 1091, 1082, 1086, 1074, 1086, 1076, 1080, 1090, 1077, 1083, 1100],
      [1076, 1080, 1088, 1077, 1082, 1090, 1086, 1088],
      ascii ''head'', ascii ''director'', ascii ''chief'', ascii ''cfo'', ascii ''ceo'',
      ascii ''cdo'', ascii ''lead'']"

definition expert_words :: "pystr list" where
  "expert_words =
     [[1101, 1082, 1089, 1087, 1077, 1088, 1090], ascii ''expert'', ascii ''principal'',
      ascii ''staff'']"

definition advanced_words :: "pystr list" where
  "advanced_words =
     [ascii ''senior'', [1089, 1090, 1072, 1088, 1096, 1080, 1081],
      [1074, 1077, 1076, 1091, 1097, 1080, 1081],
      [1086, 1087, 1099, 1090, 32, 1086, 1090, 32, 51],
      [1086, 1087, 1099, 1090, 32, 1086, 1090, 32, 53]]"

definition mid_words :: "pystr list" where
  "mid_words =
     [ascii ''middle'', [1089, 1088, 1077, 1076, 1085, 1080, 1081],
      [1086, 1087, 1099, 1090, 32, 1086, 1090, 32, 49],
      [1086, 1087, 1099, 1090, 32, 1086, 1090, 32, 50]]"

definition entry_words :: "pystr list" where
  "entry_words =
     [ascii ''junior'', [1084, 1083, 1072, 1076, 1096, 1080, 1081],
      [1085, 1072, 1095, 1072, 1083, 1100, 1085, 1099, 1081], ascii ''entry'']"

text \<open>\<open>any(word in text for word in words)\<close>; \<open>in\<close> on strings is the substring test.\<close>

definition any_in :: "pystr list \<Rightarrow> pystr \<Rightarrow> bool" where
  "any_in words text = list_ex (\<lambda>word. sublist word text) words"

text \<open>
  \<open>str.strip()\<close>: the characters for which \<open>str.isspace\<close> holds are removed at both
  ends.
\<close>

definition py_isspace :: "nat \<Rightarrow> bool" where
  "py_isspace c =
     ((9 \<le> c \<and> c \<le> 13) \<or> (28 \<le> c \<and> c \<le> 32) \<or> c = 133 \<or> c = 160 \<or> c = 5760
      \<or> (8192 \<le> c \<and> c \<le> 8202) \<or> c = 8232 \<or> c = 8233 \<or> c = 8239 \<or> c = 8287
      \<or> c = 12288)"

definition py_strip :: "pystr \<Rightarrow> pystr" where
  "py_strip s = rev (dropWhile py_isspace (rev (dropWhile py_isspace s)))"

text \<open>
  The text the keywords are looked up in: the four attributes, each read with
  \<open>vacancy.get(key, "") or ""\<close> and lowered, joined by single spaces. \<open>lower\<close> is \<open>str.lower\<close>, a function of
  the Unicode tables that is not modelled: the classifier takes it as an argument.
\<close>

definition seniority_text :: "(pystr \<Rightarrow> pystr) \<Rightarrow> vacancy \<Rightarrow> pystr" where
  "seniority_text lower vacancy =
     (let title_l = lower (text_or_empty (title vacancy));
          description_l = lower (text_or_empty (description vacancy));
          experience_l = lower (text_or_empty (experience vacancy));
          key_skills_l = lower (text_or_empty (key_skills vacancy))
      in title_l @ [32] @ description_l @ [32] @ experience_l @ [32] @ key_skills_l)"

text \<open>\<open>valid_levels\<close>, in the order of the source.\<close>

definition valid_levels :: "seniority list" where
  "valid_levels = [Intern, Entry, Mid, Advanced, Expert, Head]"

text \<open>
  The \<open>try\<close> block of \<open>determine_seniority_level\<close>. \<open>reply\<close> is the outcome of the one
  call of \<open>run_text_completion\<close> made there: an exception, or the text of the answer. The
  loop over \<open>valid_levels\<close> returns the first level whose lowered name is a substring of
  the lowered, stripped answer; the end of the block and both handlers return the label
  Mid.
\<close>

definition llm_level :: "(pystr \<Rightarrow> pystr) \<Rightarrow> py_error + pystr \<Rightarrow> pystr" where
  "llm_level lower reply =
     (case reply of
        Inl e \<Rightarrow> label_text Mid
      | Inr answer \<Rightarrow>
          (let result = py_strip answer
           in case find (\<lambda>level. sublist (lower (label_text level)) (lower result))
                     valid_levels of
                Some level \<Rightarrow> label_text level
              | None \<Rightarrow> label_text Mid))"

text \<open>
  \<open>MatchService.determine_seniority_level\<close>: the keyword checks in the order of the
  source, then the \<open>try\<close> block.
\<close>

definition determine_seniority_level ::
  "(pystr \<Rightarrow> pystr) \<Rightarrow> py_error + pystr \<Rightarrow> vacancy \<Rightarrow> pystr" where
  "determine_seniority_level lower reply vacancy =
     (let text = seniority_text lower vacancy
      in if any_in intern_words text then label_text Intern
         else if any_in head_words text then label_text Head
         else if any_in expert_words text then label_text Expert
         else if any_in advanced_words text then label_text Advanced
         else if any_in mid_words text then label_text Mid
         else if any_in entry_words text then label_text Entry
         else llm_level lower reply)"

text \<open>
  The precedence rule in the words of the specification: the keyword sets are tried in the
  order Intern, Head, Expert, Advanced, Mid, Entry, and the first set with a keyword in the
  text gives the label.
\<close>

definition precedence :: "(pystr list \<times> seniority) list" where
  "precedence =
     [(intern_words, Intern), (head_words, Head), (expert_words, Expert),
      (advanced_words, Advanced), (mid_words, Mid), (entry_words, Entry)]"

definition first_match :: "(pystr list \<times> seniority) list \<Rightarrow> pystr \<Rightarrow> seniority option" where
  "first_match table text =
     map_option snd (find (\<lambda>entry. any_in (fst entry) text) table)"

text \<open>
  A \<open>str.lower\<close> for concrete runs, right on the Basic Latin letters and on the Russian
  alphabet; it leaves every other character as it is.
\<close>

definition lower_basic :: "pystr \<Rightarrow> pystr" where
  "lower_basic s =
     map (\<lambda>c. if (65 \<le> c \<and> c \<le> 90) \<or> (1040 \<le> c \<and> c \<le> 1071) then c + 32
              else if c = 1025 then 1105 else c) s"

section \<open>The match pipeline\<close>

text \<open>
  \<open>MatchVacanciesRequest\<close>. The request model validates its fields when a request is
  built: \<open>k_faiss\<close> in 1..2000, \<open>k_stage1\<close> in 1..200, \<open>k_stage2\<close> in 1..100.
\<close>

record match_request =
  resume :: pystr
  k_faiss :: int
  k_stage1 :: int
  k_stage2 :: int

definition valid_request :: "match_request \<Rightarrow> bool" where
  "valid_request req =
     (1 \<le> k_faiss req \<and> k_faiss req \<le> 2000 \<and> 1 \<le> k_stage1 req \<and> k_stage1 req \<le> 200
      \<and> 1 \<le> k_stage2 req \<and> k_stage2 req \<le> 100)"

text \<open>
  \<open>MatchedVacancy\<close> and \<open>MatchVacanciesResponse\<close>. \<open>stage1\<close> is \<open>list(stage1_selected)\<close>,
  a list in the iteration order of a Python set, which is not specified: the field is a
  set here.
\<close>

record matched_vacancy =
  m_idx :: int
  m_title :: "pystr option"
  m_company :: "pystr option"
  m_location :: "pystr option"
  m_salary :: "pystr option"
  m_experience :: "pystr option"
  m_job_type :: "pystr option"
  m_description :: "pystr option"
  m_key_skills :: "pystr option"
  m_hh_url :: pystr
  m_seniority_level :: pystr

record match_response =
  r_top_idx :: "int list"
  r_stage1 :: "int set"
  r_result :: "matched_vacancy list"

text \<open>
  What the collaborators of one request do: the outcome of each call of the assisting
  model (one in the preprocessing, one per narrowing stage, one per finalist in the
  classifier), the embedding function, and the library functions \<open>json.loads\<close> and
  \<open>str.lower\<close>.
\<close>

record 'v collaborators =
  preprocess_reply :: "py_error + pystr"
  embed_text :: "pystr \<Rightarrow> py_error + 'v"
  stage1_reply :: completion
  stage2_reply :: completion
  level_reply :: "vacancy \<Rightarrow> py_error + pystr"
  json_loads :: "pystr \<Rightarrow> py_error + json"
  str_lower :: "pystr \<Rightarrow> pystr"

text \<open>\<open>MatchService.preprocess_resume\<close>.\<close>

definition preprocess_resume :: "py_error + pystr \<Rightarrow> pystr \<Rightarrow> py_error + pystr" where
  "preprocess_resume reply resume_text =
     (case reply of
        Inl (RuntimeError msg) \<Rightarrow> Inl (RuntimeError (ascii ''YandexGPT API error: '' @ msg))
      | Inl _ \<Rightarrow> Inr resume_text
      | Inr answer \<Rightarrow>
          (let result = py_strip answer in Inr (if result = [] then resume_text else result)))"

text \<open>\<open>MatchService.embed_query\<close>.\<close>

definition embed_query :: "(pystr \<Rightarrow> py_error + 'v) \<Rightarrow> pystr \<Rightarrow> py_error + 'v" where
  "embed_query embedder text =
     (case embedder text of
        Inl (RuntimeError msg) \<Rightarrow>
          Inl (RuntimeError (ascii ''YandexGPT Embeddings API error: '' @ msg))
      | Inl e \<Rightarrow> Inl e
      | Inr vec \<Rightarrow> Inr vec)"

text \<open>
  The message of the error \<open>match_vacancies\<close> raises on an empty search result (a Russian
  sentence: FAISS returned an empty list, check that the index is built and the embeddings
  are loaded).
\<close>

definition empty_result_msg :: pystr where
  "empty_result_msg =
     [70, 65, 73, 83, 83, 32, 1074, 1077, 1088, 1085, 1091, 1083, 32, 1087, 1091, 1089, 1090,
      1086, 1081, 32, 1089, 1087, 1080, 1089, 1086, 1082, 46, 32, 1055, 1088, 1086, 1074,
      1077, 1088, 1100, 1090, 1077, 32, 1095, 1090, 1086, 32, 1080, 1085, 1076, 1077, 1082,
      1089, 32, 1087, 1086, 1089, 1090, 1088, 1086, 1077, 1085, 32, 1080, 32, 1101, 1084,
      1073, 1077, 1076, 1076, 1080, 1085, 1075, 1080, 32, 1079, 1072, 1075, 1088, 1091, 1078,
      1077, 1085, 1099, 46]"

text \<open>
  Step 2 of \<open>match_vacancies\<close>: the search, the check for an empty result and the two
  handlers around them.
\<close>

definition faiss_step ::
  "'g faiss_lib \<Rightarrow> 'g index_state \<Rightarrow> float_array \<Rightarrow> int \<Rightarrow> py_error + int list" where
  "faiss_step ops st q_vec k =
     (let body =
        (case search_top_k ops st q_vec k of
           Inl e \<Rightarrow> Inl e
         | Inr top_idx_list \<Rightarrow>
             if top_idx_list = [] then Inl (RuntimeError empty_result_msg)
             else Inr top_idx_list)
      in case body of
           Inl (RuntimeError msg) \<Rightarrow>
             Inl (RuntimeError (ascii ''FAISS search failed: '' @ msg
                    @ ascii ''. FAISS must always work - check server startup logs.''))
         | Inl e \<Rightarrow> Inl (RuntimeError (ascii ''Unexpected FAISS error: '' @ py_str e))
         | Inr top_idx_list \<Rightarrow> Inr top_idx_list)"

text \<open>\<open>str(i)\<close> of an integer, in decimal.\<close>

fun dec_digits :: "nat \<Rightarrow> pystr" where
  "dec_digits n = (if n < 10 then [48 + n] else dec_digits (n div 10) @ [48 + n mod 10])"

definition py_str_int :: "int \<Rightarrow> pystr" where
  "py_str_int i = (if i < 0 then 45 # dec_digits (nat (- i)) else dec_digits (nat i))"

text \<open>
  Step 6 of \<open>match_vacancies\<close> for one finalist whose id is \<open>i\<close>: the attributes are
  read with \<open>d.get(key, "")\<close>, the link is \<open>d.get("hh_url", "")\<close> or else the address
  built from the id, and the classifier gives the level.
\<close>

definition to_matched :: "'v collaborators \<Rightarrow> int \<Rightarrow> vacancy \<Rightarrow> matched_vacancy" where
  "to_matched ext i d =
     \<lparr>m_idx = i, m_title = get_or_empty (title d), m_company = get_or_empty (company d),
      m_location = get_or_empty (location d), m_salary = get_or_empty (salary d),
      m_experience = get_or_empty (experience d), m_job_type = get_or_empty (job_type d),
      m_description = get_or_empty (description d),
      m_key_skills = get_or_empty (key_skills d),
      m_hh_url =
        (if text_or_empty (hh_url d) \<noteq> [] then text_or_empty (hh_url d)
         else ascii ''https://hh.ru/vacancy/'' @ py_str_int i),
      m_seniority_level = determine_seniority_level (str_lower ext) (level_reply ext d) d\<rparr>"

text \<open>The loop of step 6; \<open>int(d["idx"])\<close> raises on a record without an id.\<close>

definition matched_all :: "'v collaborators \<Rightarrow> vacancy list \<Rightarrow> py_error + matched_vacancy list" where
  "matched_all ext final =
     (if list_ex (\<lambda>d. idx d = None) final then Inl (KeyError (ascii ''idx''))
      else Inr (List.map_filter (\<lambda>d. map_option (\<lambda>i. to_matched ext i d) (idx d)) final))"

text \<open>
  The lists \<open>match_vacancies\<close> computes on its way: \<open>top_idx_list\<close>, \<open>ordered\<close>, the ids
  of stage 1, \<open>stage2\<close> and \<open>final\<close>. On the early return for an empty \<open>ordered\<close> the
  later lists are empty.
\<close>

record match_trace =
  t_top :: "int list"
  t_ordered :: "vacancy list"
  t_stage1 :: "int list"
  t_stage2 :: "vacancy list"
  t_final :: "vacancy list"

text \<open>
  Steps 1 to 5 of \<open>match_vacancies\<close>. An exception of a step ends the request. The
  context texts built from the candidates go to the assisting model only and are not
  built here.
\<close>

definition match_steps ::
  "'g faiss_lib \<Rightarrow> 'g index_state \<Rightarrow> vacancy list \<Rightarrow> float_array collaborators
     \<Rightarrow> match_request \<Rightarrow> py_error + match_trace" where
  "match_steps ops st coll ext req =
     (case preprocess_resume (preprocess_reply ext) (resume req) of
        Inl e \<Rightarrow> Inl e
      | Inr aug_text \<Rightarrow>
     (case embed_query (embed_text ext) aug_text of
        Inl e \<Rightarrow> Inl e
      | Inr q_vec \<Rightarrow>
     (case faiss_step ops st q_vec (k_faiss req) of
        Inl e \<Rightarrow> Inl e
      | Inr top_idx_list \<Rightarrow>
     (let ordered = fetch_vacancies_in_order coll top_idx_list
      in if ordered = []
         then Inr \<lparr>t_top = top_idx_list, t_ordered = [], t_stage1 = [], t_stage2 = [],
                   t_final = []\<rparr>
         else
     (case stage1_select (json_loads ext) (stage1_reply ext) (k_stage1 req) of
        Inl e \<Rightarrow> Inl e
      | Inr stage1_selected \<Rightarrow>
     (case narrow_to stage1_selected (k_stage1 req) ordered of
        Inl e \<Rightarrow> Inl e
      | Inr stage2 \<Rightarrow>
     (case stage2_select (json_loads ext) (stage2_reply ext) (k_stage2 req) of
        Inl e \<Rightarrow> Inl e
      | Inr stage2_selected \<Rightarrow>
     (case narrow_to stage2_selected (k_stage2 req) stage2 of
        Inl e \<Rightarrow> Inl e
      | Inr final \<Rightarrow>
          Inr \<lparr>t_top = top_idx_list, t_ordered = ordered, t_stage1 = stage1_selected,
                t_stage2 = stage2, t_final = final\<rparr>))))))))"

text \<open>
  \<open>MatchService.match_vacancies\<close>: the steps, then the response. The early return gives
  the whole \<open>top_idx_list\<close>; the regular return gives \<open>top_idx_list[:k_faiss]\<close>.
\<close>

definition match_vacancies ::
  "'g faiss_lib \<Rightarrow> 'g index_state \<Rightarrow> vacancy list \<Rightarrow> float_array collaborators
     \<Rightarrow> match_request \<Rightarrow> py_error + match_response" where
  "match_vacancies ops st coll ext req =
     (case match_steps ops st coll ext req of
        Inl e \<Rightarrow> Inl e
      | Inr t \<Rightarrow>
          if t_ordered t = []
          then Inr \<lparr>r_top_idx = t_top t, r_stage1 = {}, r_result = []\<rparr>
          else
            (case matched_all ext (t_final t) of
               Inl e \<Rightarrow> Inl e
             | Inr result \<Rightarrow>
                 Inr \<lparr>r_top_idx = py_prefix (k_faiss req) (t_top t),
                       r_stage1 = set (t_stage1 t), r_result = result\<rparr>))"

text \<open>Collaborators and a request for a concrete run.\<close>

definition ext_sample :: "float_array collaborators" where
  \<open>ext_sample =
     \<lparr>preprocess_reply = Inr (ascii ''accountant, ifrs''),
      embed_text = (\<lambda>t. Inr q_3_4),
      stage1_reply = Raw (ascii ''{"selected":[10,99]}''),
      stage2_reply = Raw [],
      level_reply = (\<lambda>d. Inl (RuntimeError (ascii ''timeout''))),
      json_loads = loads_sample,
      str_lower = lower_basic\<rparr>\<close>

definition req_sample :: match_request where
  "req_sample = \<lparr>resume = ascii ''accountant'', k_faiss = 3, k_stage1 = 2, k_stage2 = 1\<rparr>"

definition index_sample :: "unit index_state" where
  "index_sample = \<lparr>FAISS_AVAILABLE = True, faiss_index = Some (), vacancy_ids = [10, 11, 12]\<rparr>"

section \<open>The embedding shard loader\<close>

text \<open>
  A numpy array as far as the loader looks at it: an array of no dimension (a scalar), an
  array of one dimension, or an array of two or more dimensions, given by the rest of its
  shape after the first axis and by its rows along the first axis (each row flattened).
\<close>

datatype 'a ndarray =
    Nd0 'a
  | Nd1 "'a list"
  | NdN "nat list" "'a list list"

text \<open>The state of the file \<open>indices_batch_N.npy\<close> of a batch.\<close>

datatype index_file = Absent | Unreadable | Loaded "int ndarray"

text \<open>
  One file matched by \<open>embeddings_batch_*.npy\<close>: the number read from the end of its
  stem (\<open>None\<close> when \<open>int\<close> rejects that part of the name), what \<open>np.load\<close> gives for it
  (\<open>None\<close> when it raises) and its index file.
\<close>

record 'a batch_file =
  batch_key :: "int option"
  embeddings_npy :: "'a ndarray option"
  indices_npy :: index_file

text \<open>\<open>len(a)\<close> of an array: the length of its first axis; a scalar has none.\<close>

fun nd_len :: "'a ndarray \<Rightarrow> nat option" where
  "nd_len (Nd0 x) = None"
| "nd_len (Nd1 xs) = Some (length xs)"
| "nd_len (NdN rest rows) = Some (length rows)"

text \<open>
  The embeddings after \<open>if len(a.shape) == 1: a = a.reshape(1, -1)\<close>, as rest of the shape
  and rows; \<open>a.shape[0]\<close> raises on a scalar, which is left as it is by the reshape.
\<close>

fun emb_rows :: "'a ndarray \<Rightarrow> (nat list \<times> 'a list list) option" where
  "emb_rows (Nd0 x) = None"
| "emb_rows (Nd1 xs) = Some ([length xs], [xs])"
| "emb_rows (NdN rest rows) = Some (rest, rows)"

text \<open>
  The ids after the wrapping of a scalar into a one-element array and \<open>flatten()\<close>.
\<close>

fun flat_ids :: "int ndarray \<Rightarrow> int list" where
  "flat_ids (Nd0 x) = [x]"
| "flat_ids (Nd1 xs) = xs"
| "flat_ids (NdN rest rows) = concat rows"

text \<open>
  The body of the loop of \<open>_load_all_embeddings\<close> for one file: \<open>None\<close> when an exception
  made the loop skip the file, else what is appended to \<open>arrays\<close> and to \<open>ids\<close>. The
  default ids are \<open>np.arange(len(embeddings_batch))\<close>, taken before the reshape.
\<close>

definition load_batch :: "'a batch_file \<Rightarrow> ((nat list \<times> 'a list list) \<times> int list) option" where
  "load_batch f =
     (case embeddings_npy f of
        None \<Rightarrow> None
      | Some embeddings_batch \<Rightarrow>
          (case (case indices_npy f of
                   Loaded a \<Rightarrow> Some a
                 | Unreadable \<Rightarrow> None
                 | Absent \<Rightarrow> map_option (\<lambda>n. Nd1 (map int [0 ..< n])) (nd_len embeddings_batch)) of
             None \<Rightarrow> None
           | Some indices_batch \<Rightarrow>
               (case emb_rows embeddings_batch of
                  None \<Rightarrow> None
                | Some (rest, rows) \<Rightarrow>
                    (let min_size = min (length rows) (length (flat_ids indices_batch))
                     in Some ((rest, take min_size rows),
                              take min_size (flat_ids indices_batch))))))"

text \<open>
  \<open>np.vstack\<close> of arrays of two or more dimensions: the rows one after the other when the
  arrays agree on the rest of their shape, an error otherwise (numpy's message is not
  reproduced).
\<close>

definition vstack :: "(nat list \<times> 'a list list) list \<Rightarrow> py_error + 'a ndarray" where
  "vstack arrays =
     (case arrays of
        [] \<Rightarrow> Inl (ValueError (ascii ''need at least one array to concatenate''))
      | (rest, rows) # others \<Rightarrow>
          if list_all (\<lambda>a. fst a = rest) others then Inr (NdN rest (concat (map snd arrays)))
          else Inl (ValueError (ascii ''all the input array dimensions must match'')))"

text \<open>
  The files in the order of \<open>sorted(..., key=...)\<close>: by their number, files with the same
  number in the order of the listing. The sort fails when a key cannot be computed.
\<close>

definition sorted_files :: "'a batch_file list \<Rightarrow> 'a batch_file list option" where
  "sorted_files files =
     (if list_ex (\<lambda>f. batch_key f = None) files then None
      else Some (map snd (sort_key fst
                   (List.map_filter (\<lambda>f. map_option (\<lambda>k. (k, f)) (batch_key f)) files))))"

text \<open>
  \<open>_load_all_embeddings\<close>, for the directory \<open>dir_path\<close> whose listing is \<open>files\<close>.
\<close>

definition load_all_embeddings ::
  "pystr \<Rightarrow> 'a batch_file list \<Rightarrow> py_error + ('a ndarray \<times> int list)" where
  "load_all_embeddings dir_path files =
     (case sorted_files files of
        None \<Rightarrow> Inl (ValueError (ascii ''invalid literal for int() with base 10''))
      | Some embedding_files \<Rightarrow>
          if embedding_files = []
          then Inl (FileNotFoundError (ascii ''No embedding files in '' @ dir_path))
          else
            (let loaded = List.map_filter load_batch embedding_files;
                 arrays = map fst loaded;
                 ids = concat (map snd loaded)
             in if arrays = [] then Inl (ValueError (ascii ''No embeddings loaded''))
                else (case vstack arrays of
                        Inl e \<Rightarrow> Inl e
                      | Inr X \<Rightarrow> Inr (X, ids))))"

text \<open>
  A directory for a concrete run: batch 2 with three vectors and two ids, batch 10 with
  one vector of one dimension and no index file, batch 1 with two vectors and three ids.
\<close>

definition dir_sample :: "int batch_file list" where
  "dir_sample =
     [\<lparr>batch_key = Some 2, embeddings_npy = Some (NdN [2] [[1, 0], [0, 1], [1, 1]]),
        indices_npy = Loaded (Nd1 [21, 22])\<rparr>,
      \<lparr>batch_key = Some 10, embeddings_npy = Some (Nd1 [5, 5]), indices_npy = Absent\<rparr>,
      \<lparr>batch_key = Some 1, embeddings_npy = Some (NdN [2] [[2, 0], [0, 2]]),
        indices_npy = Loaded (Nd1 [11, 12, 13])\<rparr>]"

section \<open>The candidate fetcher keeps the order of the ids\<close>

lemma by_idx_of_fold_dom:
  "(fold (\<lambda>d m. case idx d of Some i \<Rightarrow> m(i \<mapsto> d) | None \<Rightarrow> m) docs m0 i = None)
     = (m0 i = None \<and> (\<forall>d \<in> set docs. idx d \<noteq> Some i))"
  by (induction docs arbitrary: m0) (auto split: option.splits)

lemma by_idx_of_fold_val:
  "fold (\<lambda>d m. case idx d of Some i \<Rightarrow> m(i \<mapsto> d) | None \<Rightarrow> m) docs m0 i = Some v
     \<Longrightarrow> (m0 i = Some v \<or> (v \<in> set docs \<and> idx v = Some i))"
proof (induction docs arbitrary: m0)
  case Nil
  then show ?case by simp
next
  case (Cons a docs)
  show ?case
  proof (cases "idx a")
    case None
    with Cons.prems have "fold (\<lambda>d m. case idx d of Some i \<Rightarrow> m(i \<mapsto> d) | None \<Rightarrow> m) docs m0 i = Some v"
      by simp
    from Cons.IH [OF this] show ?thesis by auto
  next
    case (Some k)
    with Cons.prems
    have "fold (\<lambda>d m. case idx d of Some i \<Rightarrow> m(i \<mapsto> d) | None \<Rightarrow> m) docs (m0(k \<mapsto> a)) i = Some v"
      by simp
    from Cons.IH [OF this] show ?thesis using Some by (auto split: if_splits)
  qed
qed

lemma by_idx_of_dom: "(by_idx_of docs i = None) = (\<forall>d \<in> set docs. idx d \<noteq> Some i)"
  unfolding by_idx_of_def by (simp add: by_idx_of_fold_dom)

lemma by_idx_of_val: "by_idx_of docs i = Some v \<Longrightarrow> v \<in> set docs \<and> idx v = Some i"
  unfolding by_idx_of_def using by_idx_of_fold_val [of docs Map.empty i v] by simp

lemma find_by_ids_present:
  "(\<exists>d \<in> set (find_by_ids coll ids). idx d = Some i) = (i \<in> set ids \<and> i \<in> stored_ids coll)"
  unfolding find_by_ids_def stored_ids_def by (auto split: option.splits)

lemma map_filter_present:
  "\<forall>i \<in> set xs. \<exists>v. m i = Some v \<and> idx v = Some i
     \<Longrightarrow> map idx (List.map_filter (\<lambda>d. d) (map m xs)) = map Some xs"
  by (induction xs) auto

lemma fetch_ids:
  "map idx (fetch_vacancies_in_order coll ids)
     = map Some (filter (\<lambda>i. i \<in> stored_ids coll) ids)"
proof -
  let ?m = "by_idx_of (find_by_ids coll ids)"
  have dom: "(?m i \<noteq> None) = (i \<in> set ids \<and> i \<in> stored_ids coll)" for i
    using by_idx_of_dom [of "find_by_ids coll ids" i] find_by_ids_present [of coll ids i]
    by auto
  have keep: "filter (\<lambda>i. ?m i \<noteq> None) ids = filter (\<lambda>i. i \<in> stored_ids coll) ids"
  proof (rule filter_cong [OF refl])
    fix x assume "x \<in> set ids"
    then show "(?m x \<noteq> None) = (x \<in> stored_ids coll)" using dom [of x] by blast
  qed
  have "\<forall>i \<in> set (filter (\<lambda>i. ?m i \<noteq> None) ids). \<exists>v. ?m i = Some v \<and> idx v = Some i"
    using by_idx_of_val by fastforce
  then have "map idx (List.map_filter (\<lambda>d. d) (map ?m (filter (\<lambda>i. ?m i \<noteq> None) ids)))
               = map Some (filter (\<lambda>i. ?m i \<noteq> None) ids)"
    by (rule map_filter_present)
  then have "map idx (fetch_vacancies_in_order coll ids)
               = map Some (filter (\<lambda>i. ?m i \<noteq> None) ids)"
    unfolding fetch_vacancies_in_order_def Let_def .
  then show ?thesis by (simp only: keep)
qed

lemma fetch_from_coll: "set (fetch_vacancies_in_order coll ids) \<subseteq> set coll"
proof
  fix v assume "v \<in> set (fetch_vacancies_in_order coll ids)"
  then obtain i where "by_idx_of (find_by_ids coll ids) i = Some v"
    unfolding fetch_vacancies_in_order_def Let_def
    by (auto simp: List.map_filter_def)
  then have "v \<in> set (find_by_ids coll ids)"
    using by_idx_of_val by blast
  then show "v \<in> set coll"
    unfolding find_by_ids_def by simp
qed

lemma fetch_all_keyed: "\<forall>d \<in> set (fetch_vacancies_in_order coll ids). idx d \<noteq> None"
proof
  fix d assume "d \<in> set (fetch_vacancies_in_order coll ids)"
  then have "idx d \<in> set (map idx (fetch_vacancies_in_order coll ids))" by simp
  then show "idx d \<noteq> None" unfolding fetch_ids by auto
qed

lemma filter_nth_position:
  "i < length xs \<Longrightarrow> P (xs ! i)
     \<Longrightarrow> length (filter P (take i xs)) < length (filter P xs)
         \<and> filter P xs ! length (filter P (take i xs)) = xs ! i"
proof (induction xs arbitrary: i)
  case Nil
  then show ?case by simp
next
  case (Cons x xs)
  show ?case
  proof (cases i)
    case 0
    with Cons.prems show ?thesis by simp
  next
    case (Suc j)
    with Cons.prems have "j < length xs" "P (xs ! j)" by simp_all
    from Cons.IH [OF this] show ?thesis using Suc by simp
  qed
qed

lemma filter_take_mono:
  "i < j \<Longrightarrow> j \<le> length xs \<Longrightarrow> P (xs ! i)
     \<Longrightarrow> length (filter P (take i xs)) < length (filter P (take j xs))"
proof -
  assume a: "i < j" "j \<le> length xs" "P (xs ! i)"
  then have "i < length (take j xs)" "P (take j xs ! i)" by simp_all
  from filter_nth_position [of i "take j xs" P, OF this]
  have "length (filter P (take i (take j xs))) < length (filter P (take j xs))" by simp
  moreover have "take i (take j xs) = take i xs" using a by (simp add: min_def)
  ultimately show ?thesis by simp
qed

text \<open>
  C2. The records returned by the candidate fetcher are exactly the input ids that have a
  record in the store, in the order of the input: the ids of the result are the input list
  with the absent ids filtered out (hence a subsequence of it), every returned record comes
  from the store, and for positions \<open>i < j\<close> of the input whose ids are in the store the
  record for \<open>ids ! i\<close> stands at a smaller position of the result than the record for
  \<open>ids ! j\<close>. The fetcher is a total function: an absent id is dropped, not an error.
\<close>

theorem fetch_preserves_order:
  "map idx (fetch_vacancies_in_order coll ids)
       = map Some (filter (\<lambda>i. i \<in> stored_ids coll) ids)
   \<and> subseq (map idx (fetch_vacancies_in_order coll ids)) (map Some ids)
   \<and> set (fetch_vacancies_in_order coll ids) \<subseteq> set coll
   \<and> (\<forall>i j. i < j \<and> j < length ids \<and> ids ! i \<in> stored_ids coll \<and> ids ! j \<in> stored_ids coll
        \<longrightarrow> (\<exists>p q. p < q \<and> q < length (fetch_vacancies_in_order coll ids)
               \<and> idx (fetch_vacancies_in_order coll ids ! p) = Some (ids ! i)
               \<and> idx (fetch_vacancies_in_order coll ids ! q) = Some (ids ! j)))"
proof -
  let ?out = "fetch_vacancies_in_order coll ids"
  let ?P = "\<lambda>i. i \<in> stored_ids coll"
  have eq: "map idx ?out = map Some (filter ?P ids)" by (rule fetch_ids)
  have len: "length ?out = length (filter ?P ids)"
    using arg_cong [OF eq, of length] by simp
  have sub: "subseq (map idx ?out) (map Some ids)"
    unfolding eq by (simp add: subseq_map)
  have pos: "\<exists>p q. p < q \<and> q < length ?out
               \<and> idx (?out ! p) = Some (ids ! i) \<and> idx (?out ! q) = Some (ids ! j)"
    if h: "i < j" "j < length ids" "?P (ids ! i)" "?P (ids ! j)" for i j
  proof -
    let ?p = "length (filter ?P (take i ids))"
    let ?q = "length (filter ?P (take j ids))"
    have i: "i < length ids" using h by simp
    have pi: "?p < length (filter ?P ids) \<and> filter ?P ids ! ?p = ids ! i"
      using filter_nth_position [of i ids ?P] i h(3) by blast
    have qj: "?q < length (filter ?P ids) \<and> filter ?P ids ! ?q = ids ! j"
      using filter_nth_position [of j ids ?P] h(2) h(4) by blast
    have pq: "?p < ?q" using filter_take_mono [of i j ids ?P] h by simp
    have nth: "idx (?out ! n) = Some (filter ?P ids ! n)" if "n < length (filter ?P ids)" for n
    proof -
      have "map idx ?out ! n = map Some (filter ?P ids) ! n" by (simp add: eq)
      then show ?thesis using that len by simp
    qed
    show ?thesis
      using pq pi qj nth [of ?p] nth [of ?q] len by auto
  qed
  show ?thesis using eq sub fetch_from_coll pos by blast
qed

theorem fetch_preserves_order_witness:
  "map idx (fetch_vacancies_in_order [vac 7, vac 5, vac 9] [5, 6, 7])
     = [Some 5, Some 7]
   \<and> (\<exists>p q. p < q \<and> q < length (fetch_vacancies_in_order [vac 7, vac 5, vac 9] [5, 6, 7])
        \<and> idx (fetch_vacancies_in_order [vac 7, vac 5, vac 9] [5, 6, 7] ! p) = Some 5
        \<and> idx (fetch_vacancies_in_order [vac 7, vac 5, vac 9] [5, 6, 7] ! q) = Some 7)"
proof -
  have s: "stored_ids [vac 7, vac 5, vac 9] = {7, 5, 9}"
    by (auto simp: stored_ids_def vac_def)
  note t = fetch_preserves_order [of "[vac 7, vac 5, vac 9]" "[5, 6, 7]"]
  have a: "map idx (fetch_vacancies_in_order [vac 7, vac 5, vac 9] [5, 6, 7])
             = [Some 5, Some 7]"
    using t by (simp add: s)
  have "(0::nat) < 2 \<and> (2::nat) < length [5, 6, 7::int]
          \<and> [5, 6, 7::int] ! 0 \<in> stored_ids [vac 7, vac 5, vac 9]
          \<and> [5, 6, 7::int] ! 2 \<in> stored_ids [vac 7, vac 5, vac 9]"
    by (simp add: s)
  with t have "\<exists>p q. p < q \<and> q < length (fetch_vacancies_in_order [vac 7, vac 5, vac 9] [5, 6, 7])
        \<and> idx (fetch_vacancies_in_order [vac 7, vac 5, vac 9] [5, 6, 7] ! p) = Some ([5, 6, 7] ! 0)
        \<and> idx (fetch_vacancies_in_order [vac 7, vac 5, vac 9] [5, 6, 7] ! q) = Some ([5, 6, 7] ! 2)"
    by blast
  then show ?thesis using a by simp
qed

section \<open>Narrowing: the fallback and the bounds\<close>

lemma py_prefix_nonneg: "0 \<le> n \<Longrightarrow> py_prefix n xs = take (nat n) xs"
  by (simp add: py_prefix_def)

lemma py_prefix_length: "0 \<le> n \<Longrightarrow> length (py_prefix n xs) \<le> nat n"
  by (simp add: py_prefix_def)

lemma take_subseq: "subseq (take m xs) xs"
  by (metis append_take_drop_id subseq_rev_drop_many subseq_order.order_refl)

lemma py_prefix_subseq: "subseq (py_prefix n xs) xs"
  by (simp add: py_prefix_def take_subseq)

lemma narrow_to_keyed:
  "\<forall>d \<in> set cands. idx d \<noteq> None \<Longrightarrow>
     narrow_to selected k cands =
       Inr (if py_prefix k (hits selected cands) = [] then py_prefix k cands
            else py_prefix k (hits selected cands))"
  by (auto simp: narrow_to_def hits_def list_ex_iff Let_def)

lemma narrow_to_Inr:
  "narrow_to selected k cands = Inr out \<Longrightarrow>
     out = (if py_prefix k (hits selected cands) = [] then py_prefix k cands
            else py_prefix k (hits selected cands))"
  by (auto simp: narrow_to_def hits_def Let_def split: if_splits)

lemma stage1_select_Inr:
  "stage1_select loads reply limit = Inr ids \<Longrightarrow>
     ids = [] \<or> (\<exists>selected. ids = py_prefix limit selected)"
  by (auto simp: stage1_select_def Let_def
           split: completion.splits sum.splits if_splits py_error.splits option.splits)

text \<open>
  C1 (as amended). For a non-empty candidate list whose records all carry an id (as the
  records the fetcher returns do), and a limit \<open>k > 0\<close>, the narrowing step returns a non-empty list of at most \<open>k\<close> candidates,
  a subsequence of the input. When none of the selected ids is an id of a candidate, the
  output is the prefix truncation of the input, of length \<open>min k (length cands)\<close>. When
  some selected id is the id of a candidate, the output is the selected candidates in
  input order, capped at \<open>k\<close>: it is not topped up with unselected candidates.
\<close>

theorem narrow_fallback_on_empty:
  assumes "cands \<noteq> []" and "0 < k" and "\<forall>d \<in> set cands. idx d \<noteq> None"
  shows "\<exists>out. narrow_to selected k cands = Inr out
           \<and> out \<noteq> [] \<and> length out \<le> min (nat k) (length cands) \<and> subseq out cands
           \<and> (hits selected cands = [] \<longrightarrow>
                out = take (nat k) cands \<and> length out = min (nat k) (length cands))
           \<and> (hits selected cands \<noteq> [] \<longrightarrow> out = take (nat k) (hits selected cands))"
proof -
  let ?h = "hits selected cands"
  let ?out = "if take (nat k) ?h = [] then take (nat k) cands else take (nat k) ?h"
  have k: "0 \<le> k" "0 < nat k" using assms(2) by simp_all
  have run: "narrow_to selected k cands = Inr ?out"
    using narrow_to_keyed [OF assms(3), of selected k] k(1) by (simp add: py_prefix_nonneg)
  have ne: "?out \<noteq> []"
    using assms(1) assms(2) by auto
  have hsub: "subseq ?h cands" by (simp add: hits_def)
  have sub: "subseq ?out cands"
    using take_subseq [of "nat k" cands] take_subseq [of "nat k" ?h] hsub
      subseq_order.order_trans by auto
  have hlen: "length ?h \<le> length cands" by (simp add: hits_def)
  have len: "length ?out \<le> min (nat k) (length cands)"
    using hlen by auto
  show ?thesis
    using run ne sub len assms(2) by auto
qed

theorem narrow_fallback_on_empty_witness:
  "narrow_to [99] 2 [vac 10, vac 11, vac 12] = Inr [vac 10, vac 11]
   \<and> narrow_to [12, 10, 99] 2 [vac 10, vac 11, vac 12] = Inr [vac 10, vac 12]"
proof -
  have c: "[vac 10, vac 11, vac 12] \<noteq> []" "(0::int) < 2"
    "\<forall>d \<in> set [vac 10, vac 11, vac 12]. idx d \<noteq> None"
    by (simp_all add: vac_def)
  have h1: "hits [99] [vac 10, vac 11, vac 12] = []"
    by (simp add: hits_def vac_def)
  have h2: "hits [12, 10, 99] [vac 10, vac 11, vac 12] = [vac 10, vac 12]"
    by (simp add: hits_def vac_def)
  from narrow_fallback_on_empty [OF c, of "[99]"] h1
  have a: "narrow_to [99] 2 [vac 10, vac 11, vac 12] = Inr [vac 10, vac 11]"
    by auto
  from narrow_fallback_on_empty [OF c, of "[12, 10, 99]"] h2
  have b: "narrow_to [12, 10, 99] 2 [vac 10, vac 11, vac 12] = Inr [vac 10, vac 12]"
    by auto
  show ?thesis using a b by simp
qed

text \<open>
  C1 as stated fails on the scenario the specification gives for it: with limit 2, the
  answer \<open>{"selected":[10,99]}\<close> and the candidates 10, 11, 12, the selector returns
  \<open>[10, 99]\<close> and the narrowing step returns the single candidate 10, which is neither the
  prefix truncation \<open>[10, 11]\<close> nor of length \<open>min 2 3\<close>.
\<close>

theorem narrow_underfill_counterexample:
  \<open>stage1_select loads_sample (Raw (ascii ''{"selected":[10,99]}'')) 2 = Inr [10, 99]
   \<and> narrow_to [10, 99] 2 [vac 10, vac 11, vac 12] = Inr [vac 10]
   \<and> length (hits [10, 99] [vac 10, vac 11, vac 12]) < min 2 (length [vac 10, vac 11, vac 12])
   \<and> [vac 10] \<noteq> py_prefix 2 [vac 10, vac 11, vac 12]
   \<and> length [vac 10] < min 2 (length [vac 10, vac 11, vac 12])\<close>
  by (simp add: stage1_select_def loads_sample_def ascii_def selected_of_def py_prefix_def
      narrow_to_def hits_def vac_def)

section \<open>Searching the index: readiness, the zero norm, scaling\<close>

lemmas fp_eval = linalg_norm_def self_dot_def unit_query_def scaled_def fp_round_def
  fp_round_int_def quantum_def pack_def shift_round_def bit_length.simps isqrt.simps
  isqrt_step_def sqrt_sticky_def div_sticky_def sqrt_shift_def

text \<open>
  The arithmetic on known values of IEEE 754: \<open>1/3\<close>, \<open>sqrt 2\<close> and \<open>0.1\<close> in both
  formats, a tie rounded to even, an overflow and an underflow.
\<close>

lemma fp_known_values:
  "fp_div F64 (Fin False 1 0) (Fin False 3 0) = Fin False 6004799503160661 (- 54)"
  "fp_div F32 (Fin False 1 0) (Fin False 3 0) = Fin False 11184811 (- 25)"
  "fp_sqrt F64 (Fin False 2 0) = Fin False 6369051672525773 (- 52)"
  "fp_sqrt F32 (Fin False 2 0) = Fin False 11863283 (- 23)"
  "fp_div F64 (Fin False 1 0) (Fin False 10 0) = Fin False 7205759403792794 (- 56)"
  "fp_cast F32 (Fin False 7205759403792794 (- 56)) = Fin False 13421773 (- 27)"
  "fp_add F64 (Fin False 1 0) (Fin False 1 (- 53)) = Fin False 4503599627370496 (- 52)"
  "fp_add F64 (Fin False 1 0) (Fin False 3 (- 54)) = Fin False 4503599627370497 (- 52)"
  "fp_mul F64 (Fin False 1 1000) (Fin False 1 100) = Infinity False"
  "fp_mul F64 (Fin False 1 (- 600)) (Fin False 1 (- 600)) = Fin False 0 (- 1074)"
  "fp_add F32 (Fin False 1 0) (Fin True 1 0) = Fin False 0 (- 149)"
  by (simp_all add: fp_eval)

lemma bit_length_zero: "bit_length 0 = 0"
  by (simp add: bit_length.simps)

lemma fp_round_zero: "fp_round t s 0 e = Fin s 0 (emin t)"
  by (simp add: fp_round_def pack_def shift_round_def)

lemma fp_mul_zero_self: "fp_is_zero x \<Longrightarrow> fp_mul t x x = Fin False 0 (emin t)"
  by (cases x) (simp_all add: fp_round_zero)

lemma fp_add_zero_zero: "fp_add t (Fin False 0 e1) (Fin False 0 e2) = Fin False 0 (emin t)"
  by (simp add: fp_round_int_def)

lemma foldl_dot_zero:
  "list_all fp_is_zero xs \<Longrightarrow>
     foldl (\<lambda>acc x. fp_add t acc (fp_mul t x x)) (Fin False 0 e) xs
       = (if xs = [] then Fin False 0 e else Fin False 0 (emin t))"
proof (induction xs arbitrary: e)
  case Nil
  then show ?case by simp
next
  case (Cons x xs)
  then have x: "fp_mul t x x = Fin False 0 (emin t)" and xs: "list_all fp_is_zero xs"
    by (simp_all add: fp_mul_zero_self)
  show ?case
    using Cons.IH [OF xs, of "emin t"] by (simp add: x fp_add_zero_zero del: fp_add.simps)
qed

lemma norm_of_zeros: "list_all fp_is_zero (elems v) \<Longrightarrow> fp_is_zero (linalg_norm v)"
  using foldl_dot_zero [of "elems v" "dtype v" "emin (dtype v)"]
  by (simp add: linalg_norm_def self_dot_def)

lemma unit_query_length: "length (unit_query v n) = length (elems v)"
  by (simp add: unit_query_def)


lemma norm_q_3_4: "linalg_norm q_3_4 = Fin False 10485760 (- 21)"
  by (simp add: q_3_4_def fp_eval)

lemma norm_q_tiny: "linalg_norm (scaled c_tiny q_unit) = Fin False 0 (- 149)"
  by (simp add: q_unit_def c_tiny_def fp_eval)

lemma elems_q_tiny:
  "elems (scaled c_tiny q_unit) = [Fin False 8388608 (- 123), Fin False 0 (- 149)]"
  by (simp add: q_unit_def c_tiny_def fp_eval)

lemma run_q_3_4: "search_top_k ops_sample built_sample q_3_4 2 = Inr [5, 7]"
proof -
  have "length (elems q_3_4) = 2" by (simp add: q_3_4_def)
  then show ?thesis
    by (simp add: search_top_k_def built_sample_def ops_sample_def norm_q_3_4 Let_def
        unit_query_length)
qed


lemma run_q_tiny:
  "search_top_k ops_sample built_sample (scaled c_tiny q_unit) 2
     = Inl (ValueError (ascii ''Query vector cannot be zero''))"
  by (simp add: search_top_k_def built_sample_def norm_q_tiny Let_def)

text \<open>
  C5. Whatever the query and \<open>k\<close>, a search while the index is not built (the index
  reference is unset, or the id list is empty) fails with a \<open>RuntimeError\<close>, the error of
  an index that is not ready; it returns no result list. The search step of a match
  request then fails with a \<open>RuntimeError\<close> too, and the request ends in an error, never
  in a response.
\<close>

theorem search_unbuilt_fails:
  assumes "faiss_index st = None \<or> vacancy_ids st = []"
  shows "search_top_k ops st query_vec k
           \<in> {Inl (RuntimeError (ascii ''FAISS not installed'')),
              Inl (RuntimeError (ascii ''FAISS index not built. Check embeddings are loaded.'')),
              Inl (RuntimeError (ascii ''No vacancies in index''))}
         \<and> (\<exists>msg. faiss_step ops st query_vec k = Inl (RuntimeError msg))
         \<and> (\<exists>e. match_vacancies ops st coll ext req = Inl e)"
proof -
  have a: "search_top_k ops st q k
           \<in> {Inl (RuntimeError (ascii ''FAISS not installed'')),
              Inl (RuntimeError (ascii ''FAISS index not built. Check embeddings are loaded.'')),
              Inl (RuntimeError (ascii ''No vacancies in index''))}" for q k
    using assms by (auto simp: search_top_k_def split: option.splits)
  have b: "\<exists>msg. faiss_step ops st q k = Inl (RuntimeError msg)" for q k
    using a [of q k] by (auto simp: faiss_step_def)
  have "\<exists>e. match_steps ops st coll ext req = Inl e"
  proof (cases "preprocess_resume (preprocess_reply ext) (resume req)")
    case (Inl e)
    then show ?thesis by (simp add: match_steps_def)
  next
    case p: (Inr aug_text)
    show ?thesis
    proof (cases "embed_query (embed_text ext) aug_text")
      case (Inl e)
      then show ?thesis by (simp add: match_steps_def p)
    next
      case (Inr q_vec)
      then show ?thesis using b [of q_vec "k_faiss req"] by (auto simp: match_steps_def p)
    qed
  qed
  then have c: "\<exists>e. match_vacancies ops st coll ext req = Inl e"
    by (auto simp: match_vacancies_def)
  show ?thesis using a b c by blast
qed

theorem search_unbuilt_fails_witness:
  "search_top_k ops_sample unbuilt_sample q_unit 3
     = Inl (RuntimeError (ascii ''FAISS index not built. Check embeddings are loaded.''))
   \<and> search_top_k ops_sample (built_sample\<lparr>vacancy_ids := []\<rparr>) q_unit 3
     = Inl (RuntimeError (ascii ''No vacancies in index''))"
proof -
  have a: "faiss_index unbuilt_sample = None \<or> vacancy_ids unbuilt_sample = []"
    by (simp add: unbuilt_sample_def)
  have b: "faiss_index (built_sample\<lparr>vacancy_ids := []\<rparr>) = None
             \<or> vacancy_ids (built_sample\<lparr>vacancy_ids := []\<rparr>) = []"
    by simp
  have "search_top_k ops_sample unbuilt_sample q_unit 3
          = Inl (RuntimeError (ascii ''FAISS index not built. Check embeddings are loaded.''))"
    using search_unbuilt_fails [OF a, of ops_sample q_unit 3]
    by (simp add: search_top_k_def unbuilt_sample_def)
  moreover have "search_top_k ops_sample (built_sample\<lparr>vacancy_ids := []\<rparr>) q_unit 3
          = Inl (RuntimeError (ascii ''No vacancies in index''))"
    using search_unbuilt_fails [OF b, of ops_sample q_unit 3]
    by (simp add: search_top_k_def built_sample_def)
  ultimately show ?thesis by simp
qed

text \<open>
  C4 (as amended). While the index is not built, every query meets the error of an index
  that is not ready, whatever its norm. On a built index, a query whose computed norm is
  exactly zero fails with the \<open>ValueError\<close> of an invalid query, for every \<open>k\<close>; the
  computed norm of a vector of zeros is zero. On a built index, a query whose computed
  norm is not zero does not take that branch: the result of the search is what the graph
  search and the mapping of its row positions give, a list of ids or the exception of the
  library.
\<close>

theorem search_zero_query:
  "(\<not> index_built st \<longrightarrow>
      search_top_k ops st query_vec k
        \<in> {Inl (RuntimeError (ascii ''FAISS not installed'')),
           Inl (RuntimeError (ascii ''FAISS index not built. Check embeddings are loaded.'')),
           Inl (RuntimeError (ascii ''No vacancies in index''))})
   \<and> (index_built st \<and> fp_is_zero (linalg_norm query_vec) \<longrightarrow>
        search_top_k ops st query_vec k = Inl (ValueError (ascii ''Query vector cannot be zero'')))
   \<and> (list_all fp_is_zero (elems query_vec) \<longrightarrow> fp_is_zero (linalg_norm query_vec))
   \<and> (index_built st \<and> \<not> fp_is_zero (linalg_norm query_vec) \<longrightarrow>
        (\<exists>index. faiss_index st = Some index
           \<and> search_top_k ops st query_vec k
               = graph_result ops index (vacancy_ids st) query_vec k))"
proof -
  have a: "\<not> index_built st \<longrightarrow>
      search_top_k ops st query_vec k
        \<in> {Inl (RuntimeError (ascii ''FAISS not installed'')),
           Inl (RuntimeError (ascii ''FAISS index not built. Check embeddings are loaded.'')),
           Inl (RuntimeError (ascii ''No vacancies in index''))}"
    by (auto simp: search_top_k_def index_built_def split: option.splits)
  have b: "index_built st \<and> fp_is_zero (linalg_norm query_vec) \<longrightarrow>
        search_top_k ops st query_vec k = Inl (ValueError (ascii ''Query vector cannot be zero''))"
    by (auto simp: search_top_k_def index_built_def Let_def split: option.splits)
  have c: "list_all fp_is_zero (elems query_vec) \<longrightarrow> fp_is_zero (linalg_norm query_vec)"
    using norm_of_zeros by blast
  have d: "index_built st \<and> \<not> fp_is_zero (linalg_norm query_vec) \<longrightarrow>
        (\<exists>index. faiss_index st = Some index
           \<and> search_top_k ops st query_vec k
               = graph_result ops index (vacancy_ids st) query_vec k)"
    by (auto simp: search_top_k_def index_built_def graph_result_def Let_def
        split: option.splits)
  show ?thesis using a b c d by blast
qed

theorem search_zero_query_witness:
  "index_built built_sample
   \<and> list_all fp_is_zero (elems q_zero)
   \<and> search_top_k ops_sample built_sample q_zero 2
       = Inl (ValueError (ascii ''Query vector cannot be zero''))
   \<and> \<not> fp_is_zero (linalg_norm q_3_4)
   \<and> search_top_k ops_sample built_sample q_3_4 2 = Inr [5, 7]
   \<and> graph_result ops_sample () [5, 7, 9] q_3_4 2 = Inr [5, 7]
   \<and> search_top_k ops_sample built_sample q_3_4 0 = Inl OtherException
   \<and> \<not> index_built unbuilt_sample
   \<and> search_top_k ops_sample unbuilt_sample q_3_4 2
       = Inl (RuntimeError (ascii ''FAISS index not built. Check embeddings are loaded.''))"
proof -
  have b: "index_built built_sample"
    by (simp add: index_built_def built_sample_def)
  have u: "\<not> index_built unbuilt_sample"
    by (simp add: index_built_def unbuilt_sample_def)
  have z: "list_all fp_is_zero (elems q_zero)"
    by (simp add: q_zero_def)
  have n: "\<not> fp_is_zero (linalg_norm q_3_4)"
    by (simp add: norm_q_3_4)
  have i: "faiss_index built_sample = Some ()" "vacancy_ids built_sample = [5, 7, 9]"
    by (simp_all add: built_sample_def)
  have r0: "search_top_k ops_sample built_sample q_3_4 0 = Inl OtherException"
    by (simp add: search_top_k_def built_sample_def ops_sample_def norm_q_3_4 Let_def)
  have ru: "search_top_k ops_sample unbuilt_sample q_3_4 2
       = Inl (RuntimeError (ascii ''FAISS index not built. Check embeddings are loaded.''))"
    by (simp add: search_top_k_def unbuilt_sample_def)
  note t = search_zero_query [of built_sample ops_sample q_zero 2]
  from t b z have zero: "search_top_k ops_sample built_sample q_zero 2
       = Inl (ValueError (ascii ''Query vector cannot be zero''))"
    by blast
  note t2 = search_zero_query [of built_sample ops_sample q_3_4 2]
  from t2 b n i have "search_top_k ops_sample built_sample q_3_4 2
       = graph_result ops_sample () [5, 7, 9] q_3_4 2"
    by auto
  then have g: "graph_result ops_sample () [5, 7, 9] q_3_4 2 = Inr [5, 7]"
    using run_q_3_4 by simp
  show ?thesis using b u z n zero run_q_3_4 g r0 ru by simp
qed

text \<open>
  C4 as stated fails in two ways. While the index is not built, the vector of zeros meets
  the error of an unbuilt index and not the error of an invalid query. And on a built
  index the \<open>float32\<close> vector \<open>[2^-100, 0]\<close>, which is not a vector of zeros, is rejected as
  an invalid query: its square \<open>2^-200\<close> is below the smallest \<open>float32\<close> number, so the
  computed norm is \<open>0.0\<close>.
\<close>

theorem search_zero_query_counterexample:
  "list_all fp_is_zero (elems q_zero)
   \<and> search_top_k ops_sample unbuilt_sample q_zero 2
       = Inl (RuntimeError (ascii ''FAISS index not built. Check embeddings are loaded.''))
   \<and> search_top_k ops_sample unbuilt_sample q_zero 2
       \<noteq> Inl (ValueError (ascii ''Query vector cannot be zero''))
   \<and> elems (scaled c_tiny q_unit) = [Fin False 8388608 (- 123), Fin False 0 (- 149)]
   \<and> \<not> list_all fp_is_zero (elems (scaled c_tiny q_unit))
   \<and> search_top_k ops_sample built_sample (scaled c_tiny q_unit) 2
       = Inl (ValueError (ascii ''Query vector cannot be zero''))"
proof -
  have u: "search_top_k ops_sample unbuilt_sample q_zero 2
       = Inl (RuntimeError (ascii ''FAISS index not built. Check embeddings are loaded.''))"
    by (simp add: search_top_k_def unbuilt_sample_def)
  have z: "list_all fp_is_zero (elems q_zero)"
    by (simp add: q_zero_def)
  show ?thesis using elems_q_tiny run_q_tiny u z by simp
qed




section \<open>The classifier: precedence and the default label\<close>

text \<open>
  C6. The classifier tries the keyword sets in the order Intern, Head, Expert, Advanced,
  Mid, Entry and the first set with a keyword in the text decides: its result is the label
  of the first matching entry of the precedence table, and the answer of the model counts
  only when no entry matches. In particular a text with an Intern keyword and a Head
  keyword gets the Intern label.
\<close>

theorem classifier_precedence:
  "determine_seniority_level lower reply vacancy =
     (case first_match precedence (seniority_text lower vacancy) of
        Some level \<Rightarrow> label_text level
      | None \<Rightarrow> llm_level lower reply)
   \<and> (any_in intern_words (seniority_text lower vacancy)
        \<and> any_in head_words (seniority_text lower vacancy)
      \<longrightarrow> determine_seniority_level lower reply vacancy = label_text Intern)"
  by (simp add: determine_seniority_level_def first_match_def precedence_def Let_def)

theorem classifier_precedence_witness:
  "any_in intern_words
     (seniority_text lower_basic (vac 1\<lparr>title := Text (ascii ''Intern to the Head of Finance'')\<rparr>))
   \<and> any_in head_words
     (seniority_text lower_basic (vac 1\<lparr>title := Text (ascii ''Intern to the Head of Finance'')\<rparr>))
   \<and> determine_seniority_level lower_basic (Inr (label_text Head))
        (vac 1\<lparr>title := Text (ascii ''Intern to the Head of Finance'')\<rparr>)
      = label_text Intern"
proof -
  let ?v = "vac 1\<lparr>title := Text (ascii ''Intern to the Head of Finance'')\<rparr>"
  have t: "seniority_text lower_basic ?v = ascii ''intern to the head of finance   ''"
    by (simp add: seniority_text_def vac_def lower_basic_def ascii_def)
  have i: "any_in intern_words (seniority_text lower_basic ?v)"
    unfolding t by (simp add: any_in_def intern_words_def ascii_def sublist_code)
  have h: "any_in head_words (seniority_text lower_basic ?v)"
    unfolding t by (simp add: any_in_def head_words_def ascii_def sublist_code)
  from classifier_precedence [of lower_basic "Inr (label_text Head)" ?v] i h
  have "determine_seniority_level lower_basic (Inr (label_text Head)) ?v = label_text Intern"
    by blast
  then show ?thesis using i h by simp
qed

text \<open>
  C8. When no keyword of the six sets occurs in the text, and the call of the model fails
  (with any exception) or its answer, stripped and lowered, contains the lowered name of
  none of the six levels, the classifier returns the label Mid. The classifier has no
  error result: every path through it ends in a label. So the last step of a match
  request, which classifies every finalist, gives its result list whatever the calls of the
  model do, as long as every finalist carries an id.
\<close>

theorem classifier_default_mid:
  assumes "\<not> any_in intern_words (seniority_text lower vacancy)"
    and "\<not> any_in head_words (seniority_text lower vacancy)"
    and "\<not> any_in expert_words (seniority_text lower vacancy)"
    and "\<not> any_in advanced_words (seniority_text lower vacancy)"
    and "\<not> any_in mid_words (seniority_text lower vacancy)"
    and "\<not> any_in entry_words (seniority_text lower vacancy)"
    and "(\<exists>e. reply = Inl e)
         \<or> (\<exists>answer. reply = Inr answer
              \<and> (\<forall>level \<in> set valid_levels.
                    \<not> sublist (lower (label_text level)) (lower (py_strip answer))))"
  shows "determine_seniority_level lower reply vacancy = label_text Mid
         \<and> (\<forall>ext :: 'v collaborators. \<forall>final.
               (\<forall>d \<in> set final. idx d \<noteq> None)
                 \<longrightarrow> (\<exists>result. matched_all ext final = Inr result))"
proof -
  have steps: "\<forall>ext :: 'v collaborators. \<forall>final.
               (\<forall>d \<in> set final. idx d \<noteq> None)
                 \<longrightarrow> (\<exists>result. matched_all ext final = Inr result)"
    by (auto simp: matched_all_def list_ex_iff)
  have "llm_level lower reply = label_text Mid"
    using assms(7)
  proof
    assume "\<exists>e. reply = Inl e"
    then show ?thesis by (auto simp: llm_level_def)
  next
    assume "\<exists>answer. reply = Inr answer
              \<and> (\<forall>level \<in> set valid_levels.
                    \<not> sublist (lower (label_text level)) (lower (py_strip answer)))"
    then obtain answer where a: "reply = Inr answer"
      and n: "\<forall>level \<in> set valid_levels.
                \<not> sublist (lower (label_text level)) (lower (py_strip answer))"
      by blast
    from n have "find (\<lambda>level. sublist (lower (label_text level)) (lower (py_strip answer)))
                   valid_levels = None"
      by (simp add: find_None_iff)
    then show ?thesis by (simp add: llm_level_def a Let_def)
  qed
  then have "determine_seniority_level lower reply vacancy = label_text Mid"
    using assms(1-6) by (simp add: determine_seniority_level_def Let_def)
  then show ?thesis using steps by blast
qed

theorem classifier_default_mid_witness:
  "determine_seniority_level lower_basic (Inl (RuntimeError (ascii ''YandexGPT API error: timeout'')))
     (vac 1\<lparr>title := Text (ascii ''Accountant'')\<rparr>) = label_text Mid
   \<and> determine_seniority_level lower_basic (Inr (ascii '' no idea ''))
     (vac 1\<lparr>title := Text (ascii ''Accountant'')\<rparr>) = label_text Mid"
proof -
  let ?v = "vac 1\<lparr>title := Text (ascii ''Accountant'')\<rparr>"
  have t: "seniority_text lower_basic ?v = ascii ''accountant   ''"
    by (simp add: seniority_text_def vac_def lower_basic_def ascii_def)
  have k: "\<not> any_in intern_words (seniority_text lower_basic ?v)"
    "\<not> any_in head_words (seniority_text lower_basic ?v)"
    "\<not> any_in expert_words (seniority_text lower_basic ?v)"
    "\<not> any_in advanced_words (seniority_text lower_basic ?v)"
    "\<not> any_in mid_words (seniority_text lower_basic ?v)"
    "\<not> any_in entry_words (seniority_text lower_basic ?v)"
    unfolding t
    by (simp_all add: any_in_def intern_words_def head_words_def expert_words_def
        advanced_words_def mid_words_def entry_words_def ascii_def sublist_code)
  have s: "py_strip (ascii '' no idea '') = ascii ''no idea''"
    by (simp add: py_strip_def py_isspace_def ascii_def)
  have r1: "(\<exists>e. (Inl (RuntimeError (ascii ''YandexGPT API error: timeout'')) :: py_error + pystr) = Inl e)
         \<or> (\<exists>answer. (Inl (RuntimeError (ascii ''YandexGPT API error: timeout'')) :: py_error + pystr)
                = Inr answer
              \<and> (\<forall>level \<in> set valid_levels.
                    \<not> sublist (lower_basic (label_text level)) (lower_basic (py_strip answer))))"
    by simp
  have n: "\<forall>level \<in> set valid_levels.
             \<not> sublist (lower_basic (label_text level)) (lower_basic (py_strip (ascii '' no idea '')))"
    unfolding s by (simp add: valid_levels_def lower_basic_def ascii_def sublist_code)
  have r2: "(\<exists>e. (Inr (ascii '' no idea '') :: py_error + pystr) = Inl e)
         \<or> (\<exists>answer. (Inr (ascii '' no idea '') :: py_error + pystr) = Inr answer
              \<and> (\<forall>level \<in> set valid_levels.
                    \<not> sublist (lower_basic (label_text level)) (lower_basic (py_strip answer))))"
    using n by blast
  show ?thesis
    using classifier_default_mid [OF k r1, THEN conjunct1]
      classifier_default_mid [OF k r2, THEN conjunct1] by simp
qed

section \<open>The pipeline introduces no candidate\<close>

lemma narrow_to_subseq: "narrow_to selected k cands = Inr out \<Longrightarrow> subseq out cands"
proof -
  assume "narrow_to selected k cands = Inr out"
  from narrow_to_Inr [OF this]
  have "out = py_prefix k cands \<or> out = py_prefix k (hits selected cands)"
    by (auto split: if_splits)
  moreover have "subseq (py_prefix k (hits selected cands)) cands"
    using py_prefix_subseq [of k "hits selected cands"] subseq_filter_left [of _ cands]
      subseq_order.order_trans unfolding hits_def by blast
  ultimately show ?thesis using py_prefix_subseq [of k cands] by auto
qed

lemma narrow_to_length:
  "0 \<le> k \<Longrightarrow> narrow_to selected k cands = Inr out \<Longrightarrow> length out \<le> nat k"
  using narrow_to_Inr [of selected k cands out] py_prefix_length [of k]
  by (auto split: if_splits)

lemma faiss_step_Inr:
  "faiss_step ops st q_vec k = Inr tops \<Longrightarrow> search_top_k ops st q_vec k = Inr tops \<and> tops \<noteq> []"
  by (auto simp: faiss_step_def Let_def split: sum.splits if_splits py_error.splits)

lemma matched_all_Inr:
  "matched_all ext final = Inr res \<Longrightarrow> map (\<lambda>m. Some (m_idx m)) res = map idx final"
proof -
  have "\<forall>d \<in> set ds. idx d \<noteq> None \<Longrightarrow>
          map (\<lambda>m. Some (m_idx m))
            (List.map_filter (\<lambda>d. map_option (\<lambda>i. to_matched ext i d) (idx d)) ds)
          = map idx ds" for ds
    by (induction ds) (auto simp: to_matched_def)
  moreover assume "matched_all ext final = Inr res"
  ultimately show ?thesis
    by (auto simp: matched_all_def list_ex_iff split: if_splits)
qed

lemma match_steps_Inr:
  assumes "match_steps ops st coll ext req = Inr t"
  shows "\<exists>q_vec. search_top_k ops st q_vec (k_faiss req) = Inr (t_top t)
           \<and> t_ordered t = fetch_vacancies_in_order coll (t_top t)
           \<and> subseq (t_stage2 t) (t_ordered t)
           \<and> subseq (t_final t) (t_stage2 t)
           \<and> (0 \<le> k_stage1 req \<longrightarrow> length (t_stage2 t) \<le> nat (k_stage1 req))
           \<and> (0 \<le> k_stage2 req \<longrightarrow> length (t_final t) \<le> nat (k_stage2 req))"
proof -
  from assms obtain aug_text q_vec tops where
    q: "faiss_step ops st q_vec (k_faiss req) = Inr tops"
    and rest: "(let ordered = fetch_vacancies_in_order coll tops
      in if ordered = []
         then Inr \<lparr>t_top = tops, t_ordered = [], t_stage1 = [], t_stage2 = [], t_final = []\<rparr>
         else
     (case stage1_select (json_loads ext) (stage1_reply ext) (k_stage1 req) of
        Inl e \<Rightarrow> Inl e
      | Inr stage1_selected \<Rightarrow>
     (case narrow_to stage1_selected (k_stage1 req) ordered of
        Inl e \<Rightarrow> Inl e
      | Inr stage2 \<Rightarrow>
     (case stage2_select (json_loads ext) (stage2_reply ext) (k_stage2 req) of
        Inl e \<Rightarrow> Inl e
      | Inr stage2_selected \<Rightarrow>
     (case narrow_to stage2_selected (k_stage2 req) stage2 of
        Inl e \<Rightarrow> Inl e
      | Inr final \<Rightarrow>
          Inr \<lparr>t_top = tops, t_ordered = ordered, t_stage1 = stage1_selected,
                t_stage2 = stage2, t_final = final\<rparr>))))) = Inr t"
    unfolding match_steps_def by (auto split: sum.splits)
  have s: "search_top_k ops st q_vec (k_faiss req) = Inr tops"
    using faiss_step_Inr [OF q] by simp
  show ?thesis
  proof (cases "fetch_vacancies_in_order coll tops = []")
    case True
    with rest have "t = \<lparr>t_top = tops, t_ordered = [], t_stage1 = [], t_stage2 = [], t_final = []\<rparr>"
      by simp
    then show ?thesis using s True by auto
  next
    case False
    with rest obtain sel1 stage2 sel2 final where
      n1: "narrow_to sel1 (k_stage1 req) (fetch_vacancies_in_order coll tops) = Inr stage2"
      and n2: "narrow_to sel2 (k_stage2 req) stage2 = Inr final"
      and t: "t = \<lparr>t_top = tops, t_ordered = fetch_vacancies_in_order coll tops, t_stage1 = sel1,
                    t_stage2 = stage2, t_final = final\<rparr>"
      by (auto simp: Let_def split: sum.splits)
    show ?thesis
      using s t narrow_to_subseq [OF n1] narrow_to_subseq [OF n2]
        narrow_to_length [OF _ n1] narrow_to_length [OF _ n2] by auto
  qed
qed

lemma subseq_set_mono: "subseq xs ys \<Longrightarrow> set xs \<subseteq> set ys"
  by (metis set_nths_subset subseq_conv_nths)

text \<open>
  C10. A completed match request introduces no candidate: the list \<open>top_idx_list\<close> is the
  result of the vector search, \<open>ordered\<close> is what the fetcher returns for it, the input of
  stage 2 is a subsequence of \<open>ordered\<close>, the final list is a subsequence of the input of
  stage 2, the result has one entry per finalist with the id of that finalist, it has at
  most \<open>k_stage2\<close> entries, and the id of every entry occurs in \<open>top_idx_list\<close>.
\<close>

theorem pipeline_introduces_nothing:
  assumes "valid_request req" and "match_vacancies ops st coll ext req = Inr resp"
  shows "\<exists>t q_vec. match_steps ops st coll ext req = Inr t
           \<and> search_top_k ops st q_vec (k_faiss req) = Inr (t_top t)
           \<and> t_ordered t = fetch_vacancies_in_order coll (t_top t)
           \<and> subseq (t_stage2 t) (t_ordered t)
           \<and> subseq (t_final t) (t_stage2 t)
           \<and> map (\<lambda>m. Some (m_idx m)) (r_result resp) = map idx (t_final t)
           \<and> length (r_result resp) \<le> nat (k_stage2 req)
           \<and> (\<forall>m \<in> set (r_result resp). m_idx m \<in> set (t_top t))"
proof -
  from assms(2) obtain t where t: "match_steps ops st coll ext req = Inr t"
    and r: "(if t_ordered t = []
          then Inr \<lparr>r_top_idx = t_top t, r_stage1 = {}, r_result = []\<rparr>
          else
            (case matched_all ext (t_final t) of
               Inl e \<Rightarrow> Inl e
             | Inr result \<Rightarrow>
                 Inr \<lparr>r_top_idx = py_prefix (k_faiss req) (t_top t),
                       r_stage1 = set (t_stage1 t), r_result = result\<rparr>)) = Inr resp"
    unfolding match_vacancies_def by (auto split: sum.splits)
  from match_steps_Inr [OF t] obtain q_vec where
    s: "search_top_k ops st q_vec (k_faiss req) = Inr (t_top t)"
    and o: "t_ordered t = fetch_vacancies_in_order coll (t_top t)"
    and s2: "subseq (t_stage2 t) (t_ordered t)"
    and fin: "subseq (t_final t) (t_stage2 t)"
    and len: "0 \<le> k_stage2 req \<longrightarrow> length (t_final t) \<le> nat (k_stage2 req)"
    by blast
  have k: "0 \<le> k_stage2 req" using assms(1) by (simp add: valid_request_def)
  have ids: "map (\<lambda>m. Some (m_idx m)) (r_result resp) = map idx (t_final t)"
  proof (cases "t_ordered t = []")
    case True
    then have "t_stage2 t = []" using s2 by simp
    then have "t_final t = []" using fin by simp
    moreover have "r_result resp = []" using r True by auto
    ultimately show ?thesis by simp
  next
    case False
    with r obtain result where "matched_all ext (t_final t) = Inr result"
      and "r_result resp = result"
      by (auto split: sum.splits)
    then show ?thesis using matched_all_Inr by blast
  qed
  have l: "length (r_result resp) \<le> nat (k_stage2 req)"
    using arg_cong [OF ids, of length] len k by simp
  have mem: "m_idx m \<in> set (t_top t)" if "m \<in> set (r_result resp)" for m
  proof -
    have "Some (m_idx m) \<in> set (map idx (t_final t))"
      using that ids [symmetric] by auto
    also have "\<dots> \<subseteq> set (map idx (t_ordered t))"
      using subseq_set_mono [OF fin] subseq_set_mono [OF s2] by auto
    also have "\<dots> \<subseteq> Some ` set (t_top t)"
      unfolding o fetch_ids by auto
    finally show ?thesis by auto
  qed
  show ?thesis using t s o s2 fin ids l mem by blast
qed

lemma run_sample_steps:
  "match_steps ops_sample index_sample [vac 12, vac 10, vac 11] ext_sample req_sample
     = Inr \<lparr>t_top = [10, 11], t_ordered = [vac 10, vac 11], t_stage1 = [10, 99],
            t_stage2 = [vac 10], t_final = [vac 10]\<rparr>"
proof -
  have l: "length (elems q_3_4) = 2" by (simp add: q_3_4_def)
  have s: "search_top_k ops_sample index_sample q_3_4 3 = Inr [10, 11]"
    using l by (simp add: search_top_k_def index_sample_def ops_sample_def norm_q_3_4 Let_def
        unit_query_length)
  have f: "faiss_step ops_sample index_sample q_3_4 3 = Inr [10, 11]"
    by (simp add: faiss_step_def s)
  have o: "fetch_vacancies_in_order [vac 12, vac 10, vac 11] [10, 11] = [vac 10, vac 11]"
    by (simp add: fetch_vacancies_in_order_def find_by_ids_def by_idx_of_def vac_def)
  have p: "preprocess_resume (preprocess_reply ext_sample) (resume req_sample)
             = Inr (ascii ''accountant, ifrs'')"
    by (simp add: preprocess_resume_def ext_sample_def py_strip_def py_isspace_def ascii_def)
  have e: "embed_query (embed_text ext_sample) (ascii ''accountant, ifrs'') = Inr q_3_4"
    by (simp add: embed_query_def ext_sample_def)
  have k: "k_faiss req_sample = 3" "k_stage1 req_sample = 2" "k_stage2 req_sample = 1"
    by (simp_all add: req_sample_def)
  have s1: "stage1_select (json_loads ext_sample) (stage1_reply ext_sample) 2 = Inr [10, 99]"
    by (simp add: stage1_select_def ext_sample_def loads_sample_def ascii_def selected_of_def
        py_prefix_def)
  have s2: "stage2_select (json_loads ext_sample) (stage2_reply ext_sample) 1 = Inr []"
    by (simp add: stage2_select_def stage1_select_def ext_sample_def)
  have n1: "narrow_to [10, 99] 2 [vac 10, vac 11] = Inr [vac 10]"
    by (simp add: narrow_to_def vac_def py_prefix_def)
  have n2: "narrow_to [] 1 [vac 10] = Inr [vac 10]"
    by (simp add: narrow_to_def vac_def py_prefix_def)
  have ne: "[vac 10, vac 11] \<noteq> []" by simp
  show ?thesis
    unfolding match_steps_def by (simp add: p e k f o s1 s2 n1 n2 Let_def)
qed

lemma run_sample_level:
  "determine_seniority_level lower_basic (Inl (RuntimeError (ascii ''timeout''))) (vac 10)
     = label_text Mid"
proof -
  have t: "seniority_text lower_basic (vac 10) = ascii ''   ''"
    by (simp add: seniority_text_def vac_def lower_basic_def ascii_def)
  show ?thesis
    unfolding determine_seniority_level_def t
    by (simp add: any_in_def intern_words_def head_words_def expert_words_def
        advanced_words_def mid_words_def entry_words_def ascii_def sublist_code llm_level_def)
qed

theorem pipeline_introduces_nothing_witness:
  "valid_request req_sample
   \<and> (\<exists>resp. match_vacancies ops_sample index_sample [vac 12, vac 10, vac 11] ext_sample
                req_sample = Inr resp
        \<and> map m_idx (r_result resp) = [10]
        \<and> map m_seniority_level (r_result resp) = [label_text Mid]
        \<and> length (r_result resp) \<le> nat (k_stage2 req_sample))"
proof -
  have v: "valid_request req_sample"
    by (simp add: valid_request_def req_sample_def)
  have m: "matched_all ext_sample [vac 10] = Inr [to_matched ext_sample 10 (vac 10)]"
    by (simp add: matched_all_def vac_def)
  have lv: "m_seniority_level (to_matched ext_sample 10 (vac 10)) = label_text Mid"
    using run_sample_level by (simp add: to_matched_def ext_sample_def)
  have run: "match_vacancies ops_sample index_sample [vac 12, vac 10, vac 11] ext_sample
               req_sample
             = Inr \<lparr>r_top_idx = py_prefix (k_faiss req_sample) [10, 11], r_stage1 = set [10, 99],
                    r_result = [to_matched ext_sample 10 (vac 10)]\<rparr>"
    unfolding match_vacancies_def by (simp add: run_sample_steps m)
  from pipeline_introduces_nothing [OF v run]
  have "length (r_result \<lparr>r_top_idx = py_prefix (k_faiss req_sample) [10, 11],
                           r_stage1 = set [10, 99],
                           r_result = [to_matched ext_sample 10 (vac 10)]\<rparr>)
          \<le> nat (k_stage2 req_sample)"
    by blast
  then show ?thesis
    using v run lv by (simp add: to_matched_def)
qed

text \<open>
  C3. For every outcome of the model call (every system prompt, context text and answer
  of the model, however many ids it holds) and every limit, a size bound \<open>limit \<ge> 0\<close>,
  the selector (at either stage) returns at most \<open>limit\<close> ids, and the narrowing step
  hands at most \<open>limit\<close> candidates on. In the pipeline, whose requests are validated
  (every bound is at least 1), the input of stage 2 has at most \<open>k_stage1\<close> candidates and
  the final list at most \<open>k_stage2\<close>.
\<close>

theorem select_bounded:
  "(0 \<le> limit \<longrightarrow>
      (\<forall>ids. stage1_select loads reply limit = Inr ids \<longrightarrow> length ids \<le> nat limit)
      \<and> (\<forall>ids. stage2_select loads reply limit = Inr ids \<longrightarrow> length ids \<le> nat limit)
      \<and> (\<forall>out. narrow_to selected limit cands = Inr out \<longrightarrow> length out \<le> nat limit))
   \<and> (valid_request req \<and> match_steps ops st coll ext req = Inr t \<longrightarrow>
        length (t_stage2 t) \<le> nat (k_stage1 req) \<and> length (t_final t) \<le> nat (k_stage2 req))"
proof -
  have a: "length ids \<le> nat limit"
    if "0 \<le> limit" "stage1_select loads reply limit = Inr ids" for ids
    using stage1_select_Inr [OF that(2)] py_prefix_length [OF that(1)] by auto
  have b: "length out \<le> nat limit"
    if "0 \<le> limit" "narrow_to selected limit cands = Inr out" for out
    using narrow_to_length [OF that] .
  have c: "length (t_stage2 t) \<le> nat (k_stage1 req) \<and> length (t_final t) \<le> nat (k_stage2 req)"
    if "valid_request req" "match_steps ops st coll ext req = Inr t"
    using match_steps_Inr [OF that(2)] that(1) by (auto simp: valid_request_def)
  show ?thesis using a b c by (simp add: stage2_select_def)
qed

theorem select_bounded_witness:
  \<open>stage1_select loads_sample (Raw (ascii ''{"selected":[1,2,3]}'')) 2 = Inr [1, 2]
   \<and> length [1, 2 :: int] \<le> nat 2
   \<and> narrow_to [1, 2, 3] 2 [vac 3, vac 2, vac 1] = Inr [vac 3, vac 2]
   \<and> length [vac 3, vac 2] \<le> nat 2
   \<and> valid_request req_sample
   \<and> length [vac 10] \<le> nat (k_stage1 req_sample)
   \<and> length [vac 10] \<le> nat (k_stage2 req_sample)\<close>
proof -
  have r: \<open>stage1_select loads_sample (Raw (ascii ''{"selected":[1,2,3]}'')) 2 = Inr [1, 2]\<close>
    by (simp add: stage1_select_def loads_sample_def ascii_def selected_of_def py_prefix_def)
  have n: "narrow_to [1, 2, 3] 2 [vac 3, vac 2, vac 1] = Inr [vac 3, vac 2]"
    by (simp add: narrow_to_def vac_def py_prefix_def)
  have z: "(0::int) \<le> 2" by simp
  have v: "valid_request req_sample"
    by (simp add: valid_request_def req_sample_def)
  note t = select_bounded [of 2 loads_sample \<open>Raw (ascii ''{"selected":[1,2,3]}'')\<close>
      "[1, 2, 3]" "[vac 3, vac 2, vac 1]" req_sample ops_sample index_sample
      "[vac 12, vac 10, vac 11]" ext_sample
      "\<lparr>t_top = [10, 11], t_ordered = [vac 10, vac 11], t_stage1 = [10, 99],
        t_stage2 = [vac 10], t_final = [vac 10]\<rparr>"]
  from t z r n have "length [1, 2 :: int] \<le> nat 2 \<and> length [vac 3, vac 2] \<le> nat 2"
    by simp
  moreover from t v run_sample_steps
  have "length [vac 10] \<le> nat (k_stage1 req_sample) \<and> length [vac 10] \<le> nat (k_stage2 req_sample)"
    by simp
  ultimately show ?thesis using r n v by simp
qed

section \<open>The shard loader returns as many rows as ids\<close>

lemma load_batch_Some:
  assumes "load_batch f = Some ((rest, rows), bids)"
  shows "\<exists>e rows0 ids0.
           embeddings_npy f = Some e \<and> emb_rows e = Some (rest, rows0)
           \<and> (case indices_npy f of
                 Loaded a \<Rightarrow> ids0 = flat_ids a
               | Unreadable \<Rightarrow> False
               | Absent \<Rightarrow> (\<exists>n. nd_len e = Some n \<and> ids0 = map int [0 ..< n]))
           \<and> rows = take (min (length rows0) (length ids0)) rows0
           \<and> bids = take (min (length rows0) (length ids0)) ids0"
  using assms unfolding load_batch_def
  by (auto simp: Let_def split: option.splits index_file.splits)

lemma load_batch_lengths:
  "load_batch f = Some ((rest, rows), bids) \<Longrightarrow> length rows = length bids"
  using load_batch_Some [of f rest rows bids] by (auto simp: min_def)

lemma load_batch_default_ids:
  assumes "load_batch f = Some ((rest, rows), bids)" and "indices_npy f = Absent"
  shows "bids = map int [0 ..< length rows]"
proof -
  from load_batch_Some [OF assms(1)] assms(2) obtain e rows0 n where
    e: "emb_rows e = Some (rest, rows0)" "nd_len e = Some n"
    and r: "rows = take (min (length rows0) n) rows0"
    and b: "bids = take (min (length rows0) n) (map int [0 ..< n])"
    by auto
  have "take m (map int [0 ..< n]) = map int [0 ..< min m n]" for m
    by (simp add: take_map min_def)
  then show ?thesis using r b by (simp add: min_def)
qed

lemma concat_lengths_agree:
  "\<forall>x \<in> set loaded. length (snd (fst x)) = length (snd x)
     \<Longrightarrow> length (concat (map (snd \<circ> fst) loaded)) = length (concat (map snd loaded))"
  by (induction loaded) auto

lemma loaded_lengths:
  "\<forall>x \<in> set (List.map_filter load_batch fs). length (snd (fst x)) = length (snd x)"
proof
  fix x assume "x \<in> set (List.map_filter load_batch fs)"
  then obtain f where "load_batch f = Some x"
    by (auto simp: List.map_filter_def)
  then show "length (snd (fst x)) = length (snd x)"
    using load_batch_lengths [of f "fst (fst x)" "snd (fst x)" "snd x"] by simp
qed

lemma vstack_Inr:
  "vstack arrays = Inr X \<Longrightarrow> \<exists>rest. X = NdN rest (concat (map snd arrays))"
  by (auto simp: vstack_def split: list.splits if_splits)

lemma keyed_pairs:
  "\<not> list_ex (\<lambda>f. batch_key f = None) files \<Longrightarrow>
     map snd (List.map_filter (\<lambda>f. map_option (\<lambda>k. (k, f)) (batch_key f)) files) = files
     \<and> map (Some \<circ> fst) (List.map_filter (\<lambda>f. map_option (\<lambda>k. (k, f)) (batch_key f)) files)
         = map batch_key files
     \<and> (\<forall>p \<in> set (List.map_filter (\<lambda>f. map_option (\<lambda>k. (k, f)) (batch_key f)) files).
           batch_key (snd p) = Some (fst p))"
  by (induction files) (auto simp: list_ex_iff)

lemma sorted_files_Some:
  assumes "sorted_files files = Some embedding_files"
  shows "set embedding_files = set files \<and> length embedding_files = length files
         \<and> sorted (List.map_filter batch_key embedding_files)"
proof -
  let ?pairs = "List.map_filter (\<lambda>f. map_option (\<lambda>k. (k, f)) (batch_key f)) files"
  from assms have nk: "\<not> list_ex (\<lambda>f. batch_key f = None) files"
    and ef: "embedding_files = map snd (sort_key fst ?pairs)"
    by (auto simp: sorted_files_def split: if_splits)
  note kp = keyed_pairs [OF nk]
  have "set embedding_files = snd ` set ?pairs" using ef by simp
  also have "\<dots> = set (map snd ?pairs)" by simp
  also have "\<dots> = set files" using kp by simp
  finally have a: "set embedding_files = set files" .
  have "length embedding_files = length (map snd ?pairs)" using ef by simp
  then have b: "length embedding_files = length files" using kp by simp
  have keys: "\<forall>p \<in> set (sort_key fst ?pairs). batch_key (snd p) = Some (fst p)"
    using kp by simp
  have "List.map_filter batch_key (map snd ps) = map fst ps"
    if "\<forall>p \<in> set ps. batch_key (snd p) = Some (fst p)" for ps :: "(int \<times> 'a batch_file) list"
    using that by (induction ps) (auto simp: List.map_filter_simps)
  from this [OF keys] have "List.map_filter batch_key embedding_files
      = map fst (sort_key fst ?pairs)"
    using ef by simp
  then have c: "sorted (List.map_filter batch_key embedding_files)" by simp
  show ?thesis using a b c by simp
qed

lemma load_batch_loaded:
  assumes "embeddings_npy f = Some e" and "emb_rows e = Some (r, rows0)"
    and "indices_npy f = Loaded a"
  shows "load_batch f
           = Some ((r, take (min (length rows0) (length (flat_ids a))) rows0),
                   take (min (length rows0) (length (flat_ids a))) (flat_ids a))"
  using assms by (simp add: load_batch_def Let_def)

lemma load_batch_absent:
  assumes "embeddings_npy f = Some e" and "emb_rows e = Some (r, rows0)"
    and "indices_npy f = Absent"
  shows "\<exists>n. nd_len e = Some n
           \<and> load_batch f
               = Some ((r, take (min (length rows0) n) rows0),
                       take (min (length rows0) n) (map int [0 ..< n]))"
  using assms by (cases e) (auto simp: load_batch_def Let_def)

lemma loaded_member:
  "f \<in> set fs \<Longrightarrow> load_batch f = Some b \<Longrightarrow> b \<in> set (List.map_filter load_batch fs)"
  by (induction fs) (auto split: option.splits)

text \<open>
  C7. A batch whose vector file and index file can both be read is loaded, not skipped,
  also when the two counts disagree: its rows and its ids are both cut to the shorter of
  the two lengths; without an index file the ids are \<open>0, ..., n - 1\<close> for the \<open>n\<close> rows
  of the batch. When the loader returns a matrix and an id list, the files were taken in
  ascending order of their batch number, every batch that was loaded is part of the
  result, the matrix is the rows of the loaded batches one after the other and the id list
  is their ids in the same order, and the matrix has as many rows as there are ids.
\<close>

theorem loader_equal_lengths:
  assumes "load_all_embeddings dir_path files = Inr (X, ids)"
  shows "\<exists>embedding_files rest.
           sorted_files files = Some embedding_files
           \<and> set embedding_files = set files
           \<and> sorted (List.map_filter batch_key embedding_files)
           \<and> X = NdN rest (concat (map (snd \<circ> fst) (List.map_filter load_batch embedding_files)))
           \<and> ids = concat (map snd (List.map_filter load_batch embedding_files))
           \<and> nd_len X = Some (length ids)
           \<and> (\<forall>f \<in> set files. \<forall>e r rows0 a.
                 embeddings_npy f = Some e \<and> emb_rows e = Some (r, rows0)
                 \<and> indices_npy f = Loaded a \<longrightarrow>
                   load_batch f
                     = Some ((r, take (min (length rows0) (length (flat_ids a))) rows0),
                             take (min (length rows0) (length (flat_ids a))) (flat_ids a))
                   \<and> ((r, take (min (length rows0) (length (flat_ids a))) rows0),
                        take (min (length rows0) (length (flat_ids a))) (flat_ids a))
                       \<in> set (List.map_filter load_batch embedding_files))
           \<and> (\<forall>f \<in> set files. \<forall>e r rows0.
                 embeddings_npy f = Some e \<and> emb_rows e = Some (r, rows0)
                 \<and> indices_npy f = Absent \<longrightarrow>
                   (\<exists>n. nd_len e = Some n
                      \<and> load_batch f
                          = Some ((r, take (min (length rows0) n) rows0),
                                  take (min (length rows0) n) (map int [0 ..< n]))
                      \<and> ((r, take (min (length rows0) n) rows0),
                           take (min (length rows0) n) (map int [0 ..< n]))
                          \<in> set (List.map_filter load_batch embedding_files)))
           \<and> (\<forall>f \<in> set embedding_files. \<forall>r rows bids.
                 load_batch f = Some ((r, rows), bids) \<longrightarrow>
                   length rows = length bids
                   \<and> (\<exists>e rows0 ids0.
                         embeddings_npy f = Some e \<and> emb_rows e = Some (r, rows0)
                         \<and> (case indices_npy f of
                               Loaded a \<Rightarrow> ids0 = flat_ids a
                             | Unreadable \<Rightarrow> False
                             | Absent \<Rightarrow> (\<exists>n. nd_len e = Some n \<and> ids0 = map int [0 ..< n]))
                         \<and> rows = take (min (length rows0) (length ids0)) rows0
                         \<and> bids = take (min (length rows0) (length ids0)) ids0)
                   \<and> (indices_npy f = Absent \<longrightarrow> bids = map int [0 ..< length rows]))"
proof -
  from assms obtain embedding_files where
    sf: "sorted_files files = Some embedding_files"
    and vs: "vstack (map fst (List.map_filter load_batch embedding_files)) = Inr X"
    and ids: "ids = concat (map snd (List.map_filter load_batch embedding_files))"
    unfolding load_all_embeddings_def
    by (auto simp: Let_def split: option.splits if_splits sum.splits)
  from vstack_Inr [OF vs] obtain rest where
    X: "X = NdN rest (concat (map (snd \<circ> fst) (List.map_filter load_batch embedding_files)))"
    by auto
  have len: "nd_len X = Some (length ids)"
    unfolding X ids using concat_lengths_agree [OF loaded_lengths, of embedding_files]
    by simp
  note sfs = sorted_files_Some [OF sf]
  have mem: "f \<in> set embedding_files" if "f \<in> set files" for f
    using that sfs by simp
  have rd: "load_batch f
              = Some ((r, take (min (length rows0) (length (flat_ids a))) rows0),
                      take (min (length rows0) (length (flat_ids a))) (flat_ids a))
            \<and> ((r, take (min (length rows0) (length (flat_ids a))) rows0),
                 take (min (length rows0) (length (flat_ids a))) (flat_ids a))
                \<in> set (List.map_filter load_batch embedding_files)"
    if "f \<in> set files" "embeddings_npy f = Some e" "emb_rows e = Some (r, rows0)"
      "indices_npy f = Loaded a" for f :: "'a batch_file" and e r rows0 a
    using load_batch_loaded [OF that(2-4)] loaded_member [OF mem [OF that(1)]] by simp
  have ab: "\<exists>n. nd_len e = Some n
              \<and> load_batch f
                  = Some ((r, take (min (length rows0) n) rows0),
                          take (min (length rows0) n) (map int [0 ..< n]))
              \<and> ((r, take (min (length rows0) n) rows0),
                   take (min (length rows0) n) (map int [0 ..< n]))
                  \<in> set (List.map_filter load_batch embedding_files)"
    if "f \<in> set files" "embeddings_npy f = Some e" "emb_rows e = Some (r, rows0)"
      "indices_npy f = Absent" for f :: "'a batch_file" and e r rows0
    using load_batch_absent [OF that(2-4)] loaded_member [OF mem [OF that(1)]] by auto
  have per: "length rows = length bids
             \<and> (\<exists>e rows0 ids0.
                   embeddings_npy f = Some e \<and> emb_rows e = Some (r, rows0)
                   \<and> (case indices_npy f of
                         Loaded a \<Rightarrow> ids0 = flat_ids a
                       | Unreadable \<Rightarrow> False
                       | Absent \<Rightarrow> (\<exists>n. nd_len e = Some n \<and> ids0 = map int [0 ..< n]))
                   \<and> rows = take (min (length rows0) (length ids0)) rows0
                   \<and> bids = take (min (length rows0) (length ids0)) ids0)
             \<and> (indices_npy f = Absent \<longrightarrow> bids = map int [0 ..< length rows])"
    if "load_batch f = Some ((r, rows), bids)" for f :: "'a batch_file" and r rows bids
    using load_batch_lengths [OF that] load_batch_Some [OF that]
      load_batch_default_ids [OF that] by blast
  have A: "\<forall>f \<in> set files. \<forall>e r rows0 a.
                 embeddings_npy f = Some e \<and> emb_rows e = Some (r, rows0)
                 \<and> indices_npy f = Loaded a \<longrightarrow>
                   load_batch f
                     = Some ((r, take (min (length rows0) (length (flat_ids a))) rows0),
                             take (min (length rows0) (length (flat_ids a))) (flat_ids a))
                   \<and> ((r, take (min (length rows0) (length (flat_ids a))) rows0),
                        take (min (length rows0) (length (flat_ids a))) (flat_ids a))
                       \<in> set (List.map_filter load_batch embedding_files)"
    using rd by blast
  have B: "\<forall>f \<in> set files. \<forall>e r rows0.
                 embeddings_npy f = Some e \<and> emb_rows e = Some (r, rows0)
                 \<and> indices_npy f = Absent \<longrightarrow>
                   (\<exists>n. nd_len e = Some n
                      \<and> load_batch f
                          = Some ((r, take (min (length rows0) n) rows0),
                                  take (min (length rows0) n) (map int [0 ..< n]))
                      \<and> ((r, take (min (length rows0) n) rows0),
                           take (min (length rows0) n) (map int [0 ..< n]))
                          \<in> set (List.map_filter load_batch embedding_files))"
    using ab by blast
  have C: "\<forall>f \<in> set embedding_files. \<forall>r rows bids.
                 load_batch f = Some ((r, rows), bids) \<longrightarrow>
                   length rows = length bids
                   \<and> (\<exists>e rows0 ids0.
                         embeddings_npy f = Some e \<and> emb_rows e = Some (r, rows0)
                         \<and> (case indices_npy f of
                               Loaded a \<Rightarrow> ids0 = flat_ids a
                             | Unreadable \<Rightarrow> False
                             | Absent \<Rightarrow> (\<exists>n. nd_len e = Some n \<and> ids0 = map int [0 ..< n]))
                         \<and> rows = take (min (length rows0) (length ids0)) rows0
                         \<and> bids = take (min (length rows0) (length ids0)) ids0)
                   \<and> (indices_npy f = Absent \<longrightarrow> bids = map int [0 ..< length rows])"
    using per by blast
  show ?thesis
    using sf sfs X ids len A B C by blast
qed

theorem loader_equal_lengths_witness:
  "load_all_embeddings (ascii ''/data'') dir_sample
     = Inr (NdN [2] [[2, 0], [0, 2], [1, 0], [0, 1], [5, 5]], [11, 12, 21, 22, 0])
   \<and> nd_len (NdN [2] [[2, 0], [0, 2], [1, 0], [0, 1], [5, 5 :: int]])
       = Some (length [11, 12, 21, 22, 0 :: int])
   \<and> load_batch \<lparr>batch_key = Some 2, embeddings_npy = Some (NdN [2] [[1, 0], [0, 1], [1, 1 :: int]]),
                  indices_npy = Loaded (Nd1 [21, 22])\<rparr>
       = Some (([2], [[1, 0], [0, 1]]), [21, 22])
   \<and> load_batch \<lparr>batch_key = Some 1, embeddings_npy = Some (NdN [2] [[2, 0], [0, 2 :: int]]),
                  indices_npy = Loaded (Nd1 [11, 12, 13])\<rparr>
       = Some (([2], [[2, 0], [0, 2]]), [11, 12])"
proof -
  let ?f2 = "\<lparr>batch_key = Some 2, embeddings_npy = Some (NdN [2] [[1, 0], [0, 1], [1, 1 :: int]]),
              indices_npy = Loaded (Nd1 [21, 22])\<rparr>"
  let ?f1 = "\<lparr>batch_key = Some 1, embeddings_npy = Some (NdN [2] [[2, 0], [0, 2 :: int]]),
              indices_npy = Loaded (Nd1 [11, 12, 13])\<rparr>"
  have run: "load_all_embeddings (ascii ''/data'') dir_sample
     = Inr (NdN [2] [[2, 0], [0, 2], [1, 0], [0, 1], [5, 5]], [11, 12, 21, 22, 0])"
    by (simp add: load_all_embeddings_def dir_sample_def sorted_files_def load_batch_def
        vstack_def upt_rec)
  note t = loader_equal_lengths [OF run]
  from t have l: "nd_len (NdN [2] [[2, 0], [0, 2], [1, 0], [0, 1], [5, 5 :: int]])
          = Some (length [11, 12, 21, 22, 0 :: int])"
    by blast
  from t have A: "\<forall>f \<in> set dir_sample. \<forall>e r rows0 a.
                 embeddings_npy f = Some e \<and> emb_rows e = Some (r, rows0)
                 \<and> indices_npy f = Loaded a \<longrightarrow>
                   load_batch f
                     = Some ((r, take (min (length rows0) (length (flat_ids a))) rows0),
                             take (min (length rows0) (length (flat_ids a))) (flat_ids a))"
    by blast
  have m2: "?f2 \<in> set dir_sample" and m1: "?f1 \<in> set dir_sample"
    by (simp_all add: dir_sample_def)
  have "embeddings_npy ?f2 = Some (NdN [2] [[1, 0], [0, 1], [1, 1]])
        \<and> emb_rows (NdN [2] [[1, 0], [0, 1], [1, 1 :: int]]) = Some ([2], [[1, 0], [0, 1], [1, 1]])
        \<and> indices_npy ?f2 = Loaded (Nd1 [21, 22])"
    by simp
  with A m2 have b2: "load_batch ?f2
      = Some (([2], take (min (length [[1, 0], [0, 1], [1, 1 :: int]]) (length (flat_ids (Nd1 [21, 22]))))
                       [[1, 0], [0, 1], [1, 1]]),
              take (min (length [[1, 0], [0, 1], [1, 1 :: int]]) (length (flat_ids (Nd1 [21, 22]))))
                (flat_ids (Nd1 [21, 22])))"
    by blast
  have "embeddings_npy ?f1 = Some (NdN [2] [[2, 0], [0, 2]])
        \<and> emb_rows (NdN [2] [[2, 0], [0, 2 :: int]]) = Some ([2], [[2, 0], [0, 2]])
        \<and> indices_npy ?f1 = Loaded (Nd1 [11, 12, 13])"
    by simp
  with A m1 have b1: "load_batch ?f1
      = Some (([2], take (min (length [[2, 0], [0, 2 :: int]]) (length (flat_ids (Nd1 [11, 12, 13]))))
                       [[2, 0], [0, 2]]),
              take (min (length [[2, 0], [0, 2 :: int]]) (length (flat_ids (Nd1 [11, 12, 13]))))
                (flat_ids (Nd1 [11, 12, 13])))"
    by blast
  show ?thesis using run l b1 b2 by simp
qed

end
